theory Spec2Isabelle
  imports Complex_Main
begin

section \<open>Numbers, points and DOM values\<close>

text \<open>
  JavaScript numbers are idealised as reals. A JavaScript division by zero does not raise:
  it yields Infinity or NaN, values that are no real numbers. The model makes that outcome
  explicit as the failure \<open>NonFinite\<close>; reading a property of \<open>undefined\<close> is the
  failure \<open>TypeError\<close>.
\<close>

datatype js_failure = NonFinite | TypeError

definition num_div :: "real \<Rightarrow> real \<Rightarrow> js_failure + real" where
  "num_div a b = (if b = 0 then Inl NonFinite else Inr (a / b))"

record point =
  px :: real
  py :: real

text \<open>The part of \<open>getBoundingClientRect()\<close> that the handlers read.\<close>

record rect =
  rect_left :: real
  rect_top :: real

text \<open>A touch, and the position part of a mouse or wheel event.\<close>

record client_point =
  clientX :: real
  clientY :: real

text \<open>
  The event target: its class list, and for a selector whether \<open>target.closest(selector)\<close>
  finds an element.
\<close>

record dom_target =
  classList :: "string list"
  closest :: "string \<Rightarrow> bool"

record wheel_event = client_point +
  ctrlKey :: bool
  metaKey :: bool
  deltaX :: real
  deltaY :: real

record mouse_event = client_point +
  button :: int
  altKey :: bool
  target :: dom_target

record touch_event =
  touches :: "client_point list"
  touch_target :: dom_target

text \<open>\<open>String.prototype.includes\<close>.\<close>

fun startsWith :: "string \<Rightarrow> string \<Rightarrow> bool" where
  "startsWith _ [] = True"
| "startsWith [] (c # cs) = False"
| "startsWith (a # as) (c # cs) = (a = c \<and> startsWith as cs)"

fun str_includes :: "string \<Rightarrow> string \<Rightarrow> bool" where
  "str_includes [] sub = (sub = [])"
| "str_includes (a # as) sub = (startsWith (a # as) sub \<or> str_includes as sub)"

section \<open>The desktop canvas: \<open>InteractiveCanvas\<close>\<close>

record canvas_state =
  zoom :: real
  pan :: point
  isPanning :: bool
  lastPanPoint :: point
  isTouch :: bool
  lastTouchDistance :: real

text \<open>The \<open>useState\<close> initial values.\<close>

definition initial_canvas :: canvas_state where
  "initial_canvas =
     \<lparr>zoom = 1, pan = \<lparr>px = 0, py = 0\<rparr>, isPanning = False,
      lastPanPoint = \<lparr>px = 0, py = 0\<rparr>, isTouch = False, lastTouchDistance = 0\<rparr>"

text \<open>
  The props the handlers read: whether \<open>onCanvasClick\<close> was passed, \<open>className\<close>
  (the parent encodes the interaction mode in it) and \<open>disableCanvasClick\<close>.
\<close>

record canvas_props =
  onCanvasClick :: bool
  className :: string
  disableCanvasClick :: bool

text \<open>Calls of the callbacks passed in by the parent.\<close>

datatype canvas_emission = CanvasClick real real

definition handleWheel :: "rect option \<Rightarrow> wheel_event \<Rightarrow> canvas_state \<Rightarrow> js_failure + canvas_state" where
  "handleWheel canvasRect e s =
     (if ctrlKey e \<or> metaKey e then
        Inr (s\<lparr>pan := \<lparr>px = px (pan s) - deltaX e, py = py (pan s) - deltaY e\<rparr>\<rparr>)
      else
        (case canvasRect of
           None \<Rightarrow> Inr s
         | Some r \<Rightarrow>
             (let mouseX = clientX e - rect_left r;
                  mouseY = clientY e - rect_top r;
                  zoomFactor = (if deltaY e > 0 then 0.9 else 1.1);
                  newZoom = max 0.1 (min 3 (zoom s * zoomFactor));
                  deltaZoom = newZoom - zoom s
              in (case num_div deltaZoom (zoom s) of
                    Inl f \<Rightarrow> Inl f
                  | Inr q \<Rightarrow>
                      Inr (s\<lparr>zoom := newZoom,
                             pan := \<lparr>px = px (pan s) - (mouseX - px (pan s)) * q,
                                     py = py (pan s) - (mouseY - py (pan s)) * q\<rparr>\<rparr>)))))"

definition handleMouseDown ::
  "canvas_props \<Rightarrow> rect option \<Rightarrow> mouse_event \<Rightarrow> canvas_state
     \<Rightarrow> js_failure + (canvas_state \<times> canvas_emission list)" where
  "handleMouseDown props canvasRect e s =
     (if button e = 1 \<or> (button e = 0 \<and> altKey e) then
        Inr (s\<lparr>isPanning := True, lastPanPoint := \<lparr>px = clientX e, py = clientY e\<rparr>\<rparr>, [])
      else if button e = 0 \<and> \<not> disableCanvasClick props then
        (let isCanvasClick = (''interactive-canvas'' \<in> set (classList (target e)) \<or>
                              ''canvas-content'' \<in> set (classList (target e)))
         in if \<not> isCanvasClick then Inr (s, [])
            else
              (let isPersonNode = closest (target e) ''.person-node'';
                   isInteractiveElement = (closest (target e) ''[data-person-id]'' \<or>
                                           closest (target e) ''button'' \<or>
                                           closest (target e) ''input'' \<or>
                                           closest (target e) ''select'')
               in if isPersonNode \<or> isInteractiveElement then Inr (s, [])
                  else if onCanvasClick props \<and> str_includes (className props) ''mode-add-person'' then
                    (case canvasRect of
                       None \<Rightarrow> Inr (s, [])
                     | Some r \<Rightarrow>
                         (case num_div (clientX e - rect_left r - px (pan s)) (zoom s) of
                            Inl f \<Rightarrow> Inl f
                          | Inr x \<Rightarrow>
                              (case num_div (clientY e - rect_top r - py (pan s)) (zoom s) of
                                 Inl f \<Rightarrow> Inl f
                               | Inr y \<Rightarrow> Inr (s, [CanvasClick x y]))))
                  else if str_includes (className props) ''mode-navigate'' then
                    Inr (s\<lparr>isPanning := True,
                           lastPanPoint := \<lparr>px = clientX e, py = clientY e\<rparr>\<rparr>, [])
                  else Inr (s, [])))
      else Inr (s, []))"

text \<open>
  \<open>handleMouseMove\<close> is the handler on the canvas element; the listener that the effect
  puts on the document while panning computes the same new pan (from \<open>prev\<close>).
\<close>

definition handleMouseMove :: "client_point \<Rightarrow> canvas_state \<Rightarrow> canvas_state" where
  "handleMouseMove e s =
     (if isPanning s then
        (let deltaX = clientX e - px (lastPanPoint s);
             deltaY = clientY e - py (lastPanPoint s);
             panSpeed = 0.7
         in s\<lparr>pan := \<lparr>px = px (pan s) + deltaX * panSpeed, py = py (pan s) + deltaY * panSpeed\<rparr>,
              lastPanPoint := \<lparr>px = clientX e, py = clientY e\<rparr>\<rparr>)
      else s)"

definition handleMouseUp :: "canvas_state \<Rightarrow> canvas_state" where
  "handleMouseUp s = s\<lparr>isPanning := False\<rparr>"

fun getTouchDistance :: "client_point list \<Rightarrow> real" where
  "getTouchDistance (touch1 # touch2 # _) =
     sqrt ((clientX touch2 - clientX touch1)\<^sup>2 + (clientY touch2 - clientY touch1)\<^sup>2)"
| "getTouchDistance _ = 0"

text \<open>On an empty touch list \<open>touches[0]\<close> is \<open>undefined\<close> and reading its fields throws.\<close>

fun getTouchCenter :: "client_point list \<Rightarrow> js_failure + point" where
  "getTouchCenter [] = Inl TypeError"
| "getTouchCenter [t] = Inr \<lparr>px = clientX t, py = clientY t\<rparr>"
| "getTouchCenter (touch1 # touch2 # _) =
     Inr \<lparr>px = (clientX touch1 + clientX touch2) / 2, py = (clientY touch1 + clientY touch2) / 2\<rparr>"

definition handleTouchStart ::
  "canvas_props \<Rightarrow> rect option \<Rightarrow> touch_event \<Rightarrow> canvas_state
     \<Rightarrow> js_failure + (canvas_state \<times> canvas_emission list)" where
  "handleTouchStart props canvasRect e s0 =
     (let s = s0\<lparr>isTouch := True\<rparr>
      in case touches e of
           [touch] \<Rightarrow>
             (let isCanvasClick = (''interactive-canvas'' \<in> set (classList (touch_target e)) \<or>
                                   ''canvas-content'' \<in> set (classList (touch_target e)))
              in if \<not> isCanvasClick then Inr (s, [])
                 else if onCanvasClick props \<and> str_includes (className props) ''mode-add-person'' then
                   (case canvasRect of
                      None \<Rightarrow> Inr (s, [])
                    | Some r \<Rightarrow>
                        (case num_div (clientX touch - rect_left r - px (pan s0)) (zoom s0) of
                           Inl f \<Rightarrow> Inl f
                         | Inr x \<Rightarrow>
                             (case num_div (clientY touch - rect_top r - py (pan s0)) (zoom s0) of
                                Inl f \<Rightarrow> Inl f
                              | Inr y \<Rightarrow> Inr (s, [CanvasClick x y]))))
                 else Inr (s\<lparr>isPanning := True,
                             lastPanPoint := \<lparr>px = clientX touch, py = clientY touch\<rparr>\<rparr>, []))
         | [touch1, touch2] \<Rightarrow>
             (case getTouchCenter (touches e) of
                Inl f \<Rightarrow> Inl f
              | Inr center \<Rightarrow>
                  Inr (s\<lparr>isPanning := False,
                         lastTouchDistance := getTouchDistance (touches e),
                         lastPanPoint := center\<rparr>, []))
         | _ \<Rightarrow> Inr (s, []))"

definition handleTouchMove :: "rect option \<Rightarrow> client_point list \<Rightarrow> canvas_state \<Rightarrow> js_failure + canvas_state" where
  "handleTouchMove canvasRect ts s =
     (if length ts = 1 \<and> isPanning s then
        (case ts of
           touch # _ \<Rightarrow>
             (let deltaX = clientX touch - px (lastPanPoint s);
                  deltaY = clientY touch - py (lastPanPoint s);
                  panSpeed = 1.0
              in Inr (s\<lparr>pan := \<lparr>px = px (pan s) + deltaX * panSpeed,
                                py = py (pan s) + deltaY * panSpeed\<rparr>,
                        lastPanPoint := \<lparr>px = clientX touch, py = clientY touch\<rparr>\<rparr>))
         | [] \<Rightarrow> Inl TypeError)
      else if length ts = 2 then
        (let distance = getTouchDistance ts
         in case getTouchCenter ts of
              Inl f \<Rightarrow> Inl f
            | Inr center \<Rightarrow>
                (if lastTouchDistance s > 0 then
                   (case num_div distance (lastTouchDistance s) of
                      Inl f \<Rightarrow> Inl f
                    | Inr scale \<Rightarrow>
                        (let newZoom = max 0.1 (min 3 (zoom s * scale))
                         in case canvasRect of
                              None \<Rightarrow>
                                Inr (s\<lparr>lastTouchDistance := distance, lastPanPoint := center\<rparr>)
                            | Some r \<Rightarrow>
                                (let centerX = px center - rect_left r;
                                     centerY = py center - rect_top r;
                                     deltaZoom = newZoom - zoom s
                                 in case num_div deltaZoom (zoom s) of
                                      Inl f \<Rightarrow> Inl f
                                    | Inr q \<Rightarrow>
                                        Inr (s\<lparr>zoom := newZoom,
                                               pan := \<lparr>px = px (pan s) - (centerX - px (pan s)) * q,
                                                       py = py (pan s) - (centerY - py (pan s)) * q\<rparr>,
                                               lastTouchDistance := distance,
                                               lastPanPoint := center\<rparr>))))
                 else Inr (s\<lparr>lastTouchDistance := distance, lastPanPoint := center\<rparr>)))
      else Inr s)"

text \<open>The argument is \<open>e.touches\<close>: the touches still on the screen.\<close>

definition handleTouchEnd :: "client_point list \<Rightarrow> canvas_state \<Rightarrow> canvas_state" where
  "handleTouchEnd ts s =
     (case ts of
        [] \<Rightarrow> s\<lparr>isPanning := False, isTouch := False, lastTouchDistance := 0\<rparr>
      | [touch] \<Rightarrow> s\<lparr>lastPanPoint := \<lparr>px = clientX touch, py = clientY touch\<rparr>,
                      lastTouchDistance := 0\<rparr>
      | _ \<Rightarrow> s)"

definition resetView :: "canvas_state \<Rightarrow> canvas_state" where
  "resetView s = s\<lparr>zoom := 1, pan := \<lparr>px = 0, py = 0\<rparr>\<rparr>"

definition returnToOrigin :: "canvas_state \<Rightarrow> canvas_state" where
  "returnToOrigin s = s\<lparr>zoom := 1, pan := \<lparr>px = 0, py = 0\<rparr>\<rparr>"

definition zoomIn :: "canvas_state \<Rightarrow> canvas_state" where
  "zoomIn s = s\<lparr>zoom := min 3 (zoom s * 1.2)\<rparr>"

definition zoomOut :: "canvas_state \<Rightarrow> canvas_state" where
  "zoomOut s = s\<lparr>zoom := max 0.1 (zoom s / 1.2)\<rparr>"

text \<open>
  One event of the canvas: the handlers above, with the bounding rectangle of the canvas
  element at the time of the event. Each event finds the state that the event before it
  left. \<open>MouseMove\<close> and \<open>MouseUp\<close> stand for the handler on the element and for the
  document listener alike; both only touch the pan and the panning flag.
\<close>

datatype canvas_event =
    Wheel "rect option" wheel_event
  | MouseDown "rect option" mouse_event
  | MouseMove client_point
  | MouseUp
  | TouchStart "rect option" touch_event
  | TouchMove "rect option" "client_point list"
  | TouchEnd "client_point list"
  | ResetView
  | ReturnToOrigin
  | ZoomIn
  | ZoomOut

fun canvas_step :: "canvas_props \<Rightarrow> canvas_event \<Rightarrow> canvas_state \<Rightarrow> js_failure + canvas_state" where
  "canvas_step props (Wheel r e) s = handleWheel r e s"
| "canvas_step props (MouseDown r e) s = map_sum id fst (handleMouseDown props r e s)"
| "canvas_step props (MouseMove e) s = Inr (handleMouseMove e s)"
| "canvas_step props MouseUp s = Inr (handleMouseUp s)"
| "canvas_step props (TouchStart r e) s = map_sum id fst (handleTouchStart props r e s)"
| "canvas_step props (TouchMove r ts) s = handleTouchMove r ts s"
| "canvas_step props (TouchEnd ts) s = Inr (handleTouchEnd ts s)"
| "canvas_step props ResetView s = Inr (resetView s)"
| "canvas_step props ReturnToOrigin s = Inr (returnToOrigin s)"
| "canvas_step props ZoomIn s = Inr (zoomIn s)"
| "canvas_step props ZoomOut s = Inr (zoomOut s)"

fun canvas_run :: "canvas_props \<Rightarrow> canvas_event list \<Rightarrow> canvas_state \<Rightarrow> js_failure + canvas_state" where
  "canvas_run props [] s = Inr s"
| "canvas_run props (e # es) s =
     (case canvas_step props e s of Inl f \<Rightarrow> Inl f | Inr s' \<Rightarrow> canvas_run props es s')"

section \<open>The desktop node: \<open>PersonNode\<close>\<close>

text \<open>
  \<open>screenToCanvasCoords\<close>: the world point under a screen point, from the props
  \<open>canvasRef\<close>, \<open>zoom\<close> and \<open>pan\<close> that the canvas hands to each node.
\<close>

definition screenToCanvasCoords ::
  "rect option \<Rightarrow> real \<Rightarrow> point \<Rightarrow> real \<Rightarrow> real \<Rightarrow> js_failure + point" where
  "screenToCanvasCoords canvasRect z p screenX screenY =
     (case canvasRect of
        None \<Rightarrow> Inr \<lparr>px = screenX, py = screenY\<rparr>
      | Some r \<Rightarrow>
          (case num_div (screenX - rect_left r - px p) z of
             Inl f \<Rightarrow> Inl f
           | Inr canvasX \<Rightarrow>
               (case num_div (screenY - rect_top r - py p) z of
                  Inl f \<Rightarrow> Inl f
                | Inr canvasY \<Rightarrow> Inr \<lparr>px = canvasX, py = canvasY\<rparr>)))"

datatype interaction_mode = Navigate | AddPerson | Connect

record person =
  p_id :: string
  p_x :: real
  p_y :: real
  p_name :: string
  p_birthDate :: "string option"
  p_deathDate :: "string option"
  p_gender :: "string option"

text \<open>
  The browser's timer table. A pending timeout has the id that \<open>setTimeout\<close> returned,
  the time from which it may run, and what its callback closed over. \<open>setTimeout\<close>
  returns a fresh id; \<open>clearTimeout\<close> removes the timeout with the given id, and does
  nothing when there is none.
\<close>

record 'a timeout =
  t_id :: nat
  t_due :: int
  t_closure :: 'a

record 'a timer_table =
  pending :: "'a timeout list"
  nextId :: nat

definition setTimeout :: "'a \<Rightarrow> int \<Rightarrow> int \<Rightarrow> 'a timer_table \<Rightarrow> nat \<times> 'a timer_table" where
  "setTimeout c now delay tt =
     (nextId tt,
      \<lparr>pending = pending tt @ [\<lparr>t_id = nextId tt, t_due = now + delay, t_closure = c\<rparr>],
       nextId = Suc (nextId tt)\<rparr>)"

definition clearTimeout :: "nat \<Rightarrow> 'a timer_table \<Rightarrow> 'a timer_table" where
  "clearTimeout t tt = tt\<lparr>pending := filter (\<lambda>x. t_id x \<noteq> t) (pending tt)\<rparr>"

record node_state =
  isDragging :: bool
  isConnecting :: bool
  isEditing :: bool
  dragStart :: point
  longPressTimer :: "nat option"
  touchStartTime :: int

definition initial_node :: node_state where
  "initial_node =
     \<lparr>isDragging = False, isConnecting = False, isEditing = False,
      dragStart = \<lparr>px = 0, py = 0\<rparr>, longPressTimer = None, touchStartTime = 0\<rparr>"

record node_props =
  person :: person
  interactionMode :: interaction_mode
  canvasRef :: "rect option"
  node_zoom :: real
  node_pan :: point

datatype node_emission =
    Select
  | ConnectionDrag string point point
  | ConnectionDragEnd
  | PersonUpdate person

text \<open>\<open>Math.round(v / gridSize) * gridSize\<close>; \<open>Math.round\<close> rounds a half upwards.\<close>

definition snapToGrid :: "real \<Rightarrow> real" where
  "snapToGrid v = of_int \<lfloor>v / 20 + 1 / 2\<rfloor> * 20"

text \<open>
  The touch handlers of \<open>PersonNode\<close>. \<open>now\<close> is what \<open>Date.now()\<close> returns during
  the event. Each handler reads the state of the last render and returns the state after its
  updates, the timer table, and the callbacks it called, in order.
\<close>

definition PersonNode_handleTouchStart ::
  "node_props \<Rightarrow> int \<Rightarrow> client_point list \<Rightarrow> node_state \<Rightarrow> interaction_mode timer_table
     \<Rightarrow> js_failure + (node_state \<times> interaction_mode timer_table \<times> node_emission list)" where
  "PersonNode_handleTouchStart props now ts n tt =
     (case ts of
        [touch] \<Rightarrow>
          (if isEditing n then Inr (n, tt, [])
           else
             (let n1 = n\<lparr>touchStartTime := now\<rparr>;
                  tt1 = (case longPressTimer n of Some t \<Rightarrow> clearTimeout t tt | None \<Rightarrow> tt)
              in if interactionMode props = Connect then
                   (let centerX = p_x (person props) + 75;
                        centerY = p_y (person props) + 50
                    in case screenToCanvasCoords (canvasRef props) (node_zoom props) (node_pan props)
                              (clientX touch) (clientY touch) of
                         Inl f \<Rightarrow> Inl f
                       | Inr currentPos \<Rightarrow>
                           Inr (n1\<lparr>isConnecting := True, dragStart := \<lparr>px = centerX, py = centerY\<rparr>\<rparr>,
                                tt1,
                                [ConnectionDrag (p_id (person props)) \<lparr>px = centerX, py = centerY\<rparr> currentPos,
                                 Select]))
                 else if interactionMode props = Navigate \<or> interactionMode props = AddPerson then
                   (let (timer, tt2) = setTimeout (interactionMode props) now 500 tt1
                    in Inr (n1\<lparr>dragStart := \<lparr>px = clientX touch - p_x (person props),
                                               py = clientY touch - p_y (person props)\<rparr>,
                                 longPressTimer := Some timer\<rparr>,
                            tt2, [Select]))
                 else Inr (n1, tt1, [Select])))
      | _ \<Rightarrow> Inr (n, tt, []))"

definition PersonNode_handleTouchMove ::
  "node_props \<Rightarrow> int \<Rightarrow> client_point list \<Rightarrow> node_state \<Rightarrow> interaction_mode timer_table
     \<Rightarrow> js_failure + (node_state \<times> interaction_mode timer_table \<times> node_emission list)" where
  "PersonNode_handleTouchMove props now ts n tt =
     (case ts of
        [touch] \<Rightarrow>
          (let moveThreshold = 10;
               timeSinceStart = now - touchStartTime n;
               (n1, tt1) =
                 (case longPressTimer n of
                    None \<Rightarrow> (n, tt)
                  | Some t \<Rightarrow>
                      (let deltaX = \<bar>clientX touch - (p_x (person props) + px (dragStart n))\<bar>;
                           deltaY = \<bar>clientY touch - (p_y (person props) + py (dragStart n))\<bar>
                       in if deltaX > moveThreshold \<or> deltaY > moveThreshold then
                            (if timeSinceStart < 200 \<and>
                                (interactionMode props = Navigate \<or> interactionMode props = AddPerson)
                             then n\<lparr>longPressTimer := None, isDragging := True\<rparr>
                             else n\<lparr>longPressTimer := None\<rparr>,
                             clearTimeout t tt)
                          else (n, tt)))
           in if isDragging n then
                (let newX = clientX touch - px (dragStart n);
                     newY = clientY touch - py (dragStart n)
                 in Inr (n1, tt1,
                         [PersonUpdate ((person props)\<lparr>p_x := snapToGrid newX, p_y := snapToGrid newY\<rparr>)]))
              else if isConnecting n then
                (case screenToCanvasCoords (canvasRef props) (node_zoom props) (node_pan props)
                        (clientX touch) (clientY touch) of
                   Inl f \<Rightarrow> Inl f
                 | Inr currentPos \<Rightarrow>
                     Inr (n1, tt1, [ConnectionDrag (p_id (person props)) (dragStart n) currentPos]))
              else Inr (n1, tt1, []))
      | _ \<Rightarrow> Inr (n, tt, []))"

text \<open>
  \<open>changed\<close> is \<open>e.changedTouches\<close>; \<open>hitTest x y\<close> is the \<open>data-person-id\<close> of
  \<open>document.elementFromPoint(x, y)?.closest('[data-person-id]')\<close>, if there is such an
  element.
\<close>

definition PersonNode_handleTouchEnd ::
  "node_props \<Rightarrow> int \<Rightarrow> client_point list \<Rightarrow> (real \<Rightarrow> real \<Rightarrow> string option)
     \<Rightarrow> node_state \<Rightarrow> interaction_mode timer_table
     \<Rightarrow> node_state \<times> interaction_mode timer_table \<times> node_emission list" where
  "PersonNode_handleTouchEnd props now changed hitTest n tt =
     (let (n1, tt1) = (case longPressTimer n of
                         Some t \<Rightarrow> (n\<lparr>longPressTimer := None\<rparr>, clearTimeout t tt)
                       | None \<Rightarrow> (n, tt));
          touchDuration = now - touchStartTime n
      in if isDragging n then (n1\<lparr>isDragging := False\<rparr>, tt1, [])
         else if isConnecting n then
           (n1\<lparr>isConnecting := False\<rparr>, tt1,
            (case changed of
               [] \<Rightarrow> []
             | touch # _ \<Rightarrow>
                 (case hitTest (clientX touch) (clientY touch) of
                    None \<Rightarrow> []
                  | Some personId \<Rightarrow> if personId \<noteq> p_id (person props) then [Select] else []))
            @ [ConnectionDragEnd])
         else if interactionMode props = Connect \<and> touchDuration < 200 then (n1, tt1, [Select])
         else (n1, tt1, []))"

text \<open>
  The callback of the long-press timeout: \<open>interactionMode\<close> is the one of the render in
  which the touch started.
\<close>

definition PersonNode_longPress :: "interaction_mode \<Rightarrow> node_state \<Rightarrow> node_state" where
  "PersonNode_longPress m n = (if m = Navigate then n\<lparr>isEditing := True\<rparr> else n)"

text \<open>Time reaches \<open>now\<close>: the timeouts that are due run and leave the table.\<close>

definition PersonNode_elapse ::
  "int \<Rightarrow> node_state \<Rightarrow> interaction_mode timer_table \<Rightarrow> node_state \<times> interaction_mode timer_table" where
  "PersonNode_elapse now n tt =
     (fold (\<lambda>t. PersonNode_longPress (t_closure t)) (filter (\<lambda>t. t_due t \<le> now) (pending tt)) n,
      tt\<lparr>pending := filter (\<lambda>t. \<not> t_due t \<le> now) (pending tt)\<rparr>)"

section \<open>The mobile application\<close>

datatype relationship_type = Parent | Spouse | Child

record relationship =
  r_id :: string
  r_type :: relationship_type
  r_from :: string
  r_to :: string

record family_tree =
  people :: "person list"
  relationships :: "relationship list"

datatype mobile_mode = MNavigate | MAdd | MConnect

record connection_start =
  cs_personId :: string
  cs_x :: real
  cs_y :: real

text \<open>The state of \<open>MobileFamilyTreeApp\<close> (without the menu flag and the version text).\<close>

record mobile_app =
  familyTree :: family_tree
  selectedPersonId :: "string option"
  mode :: mobile_mode
  connectionType :: relationship_type
  connectionStart :: "connection_start option"
  scale :: real
  offset :: point
  showAddForm :: bool
  addPosition :: point

definition initial_mobile_app :: mobile_app where
  "initial_mobile_app =
     \<lparr>familyTree = \<lparr>people = [], relationships = []\<rparr>, selectedPersonId = None,
      mode = MNavigate, connectionType = Parent, connectionStart = None, scale = 1,
      offset = \<lparr>px = 0, py = 0\<rparr>, showAddForm = False, addPosition = \<lparr>px = 0, py = 0\<rparr>\<rparr>"

text \<open>
  The callbacks of the application. A callback was created in the last render: what it reads
  from the state is the state \<open>c\<close> of that render; what it sets is queued and applied to
  the pending state \<open>s\<close>, the functional updates (\<open>prev => ...\<close>) computing from it.
  \<open>newId\<close> is the string \<open>Date.now().toString()\<close> at the call.
\<close>

definition updatePerson :: "person \<Rightarrow> mobile_app \<Rightarrow> mobile_app" where
  "updatePerson updatedPerson s =
     s\<lparr>familyTree := (familyTree s)
          \<lparr>people := map (\<lambda>p. if p_id p = p_id updatedPerson then updatedPerson else p)
                         (people (familyTree s))\<rparr>\<rparr>"

definition deletePerson :: "string \<Rightarrow> mobile_app \<Rightarrow> mobile_app" where
  "deletePerson i s =
     s\<lparr>familyTree :=
          \<lparr>people = filter (\<lambda>p. p_id p \<noteq> i) (people (familyTree s)),
           relationships = filter (\<lambda>r. r_from r \<noteq> i \<and> r_to r \<noteq> i) (relationships (familyTree s))\<rparr>,
       selectedPersonId := None\<rparr>"

definition addRelationship :: "string \<Rightarrow> string \<Rightarrow> string \<Rightarrow> relationship_type \<Rightarrow> mobile_app \<Rightarrow> mobile_app" where
  "addRelationship newId fromId toId ty s =
     s\<lparr>familyTree := (familyTree s)
          \<lparr>relationships := relationships (familyTree s) @
             [\<lparr>r_id = newId, r_type = ty, r_from = fromId, r_to = toId\<rparr>]\<rparr>\<rparr>"

definition deleteRelationship :: "string \<Rightarrow> mobile_app \<Rightarrow> mobile_app" where
  "deleteRelationship i s =
     s\<lparr>familyTree := (familyTree s)
          \<lparr>relationships := filter (\<lambda>r. r_id r \<noteq> i) (relationships (familyTree s))\<rparr>\<rparr>"

definition handleCanvasTouch :: "mobile_app \<Rightarrow> real \<Rightarrow> real \<Rightarrow> mobile_app \<Rightarrow> mobile_app" where
  "handleCanvasTouch c x y s =
     (if mode c = MAdd then s\<lparr>addPosition := \<lparr>px = x - 60, py = y - 30\<rparr>, showAddForm := True\<rparr>
      else if connectionStart c \<noteq> None then s\<lparr>connectionStart := None\<rparr>
      else s)"

definition handlePersonSelect :: "mobile_app \<Rightarrow> string \<Rightarrow> string \<Rightarrow> mobile_app \<Rightarrow> js_failure + mobile_app" where
  "handlePersonSelect c newId personId s =
     (let r = (if mode c = MConnect then
                 (case connectionStart c of
                    Some start \<Rightarrow>
                      (if cs_personId start \<noteq> personId then
                         Inr ((addRelationship newId (cs_personId start) personId (connectionType c) s)
                                \<lparr>connectionStart := None\<rparr>)
                       else Inr s)
                  | None \<Rightarrow>
                      (case find (\<lambda>p. p_id p = personId) (people (familyTree c)) of
                         None \<Rightarrow> Inl TypeError
                       | Some p \<Rightarrow>
                           Inr (s\<lparr>connectionStart :=
                                     Some \<lparr>cs_personId = personId, cs_x = p_x p + 60, cs_y = p_y p + 30\<rparr>\<rparr>)))
               else Inr s)
      in case r of
           Inl f \<Rightarrow> Inl f
         | Inr s1 \<Rightarrow> Inr (s1\<lparr>selectedPersonId := Some personId\<rparr>))"

definition handleConnectionStart :: "mobile_app \<Rightarrow> string \<Rightarrow> real \<Rightarrow> real \<Rightarrow> mobile_app \<Rightarrow> mobile_app" where
  "handleConnectionStart c personId x y s =
     (if mode c = MConnect then
        s\<lparr>connectionStart := Some \<lparr>cs_personId = personId, cs_x = x, cs_y = y\<rparr>\<rparr>
      else s)"

text \<open>The mode buttons of the toolbar: \<open>onClick: () => setMode(...)\<close>.\<close>

definition setMode :: "mobile_mode \<Rightarrow> mobile_app \<Rightarrow> mobile_app" where
  "setMode m s = s\<lparr>mode := m\<rparr>"

subsection \<open>\<open>MobilePersonNode\<close>\<close>

record mobile_node =
  m_isEditing :: bool
  m_isDragging :: bool
  m_longPressTimer :: "nat option"
  m_dragStart :: point

definition initial_mobile_node :: mobile_node where
  "initial_mobile_node =
     \<lparr>m_isEditing = False, m_isDragging = False, m_longPressTimer = None,
      m_dragStart = \<lparr>px = 0, py = 0\<rparr>\<rparr>"

record mobile_node_props =
  m_person :: person
  connectionMode :: bool

datatype mobile_emission =
    ConnectionStart string real real
  | PersonSelect string
  | MPersonUpdate person
  | CanvasTouch real real
  | OffsetChange point

text \<open>
  The timeouts of the mobile nodes close over the node they belong to: the table keeps its
  person id.
\<close>

definition MobilePersonNode_handleTouchStart ::
  "mobile_node_props \<Rightarrow> int \<Rightarrow> client_point list \<Rightarrow> mobile_node \<Rightarrow> string timer_table
     \<Rightarrow> js_failure + (mobile_node \<times> string timer_table \<times> mobile_emission list)" where
  "MobilePersonNode_handleTouchStart props now ts n tt =
     (if m_isEditing n then Inr (n, tt, [])
      else
        (let tt1 = (case m_longPressTimer n of Some t \<Rightarrow> clearTimeout t tt | None \<Rightarrow> tt)
         in if connectionMode props then
              Inr (n, tt1,
                   [ConnectionStart (p_id (m_person props)) (p_x (m_person props) + 60)
                      (p_y (m_person props) + 30),
                    PersonSelect (p_id (m_person props))])
            else
              (case ts of
                 [] \<Rightarrow> Inl TypeError
               | touch # _ \<Rightarrow>
                   (let (timer, tt2) = setTimeout (p_id (m_person props)) now 600 tt1
                    in Inr (n\<lparr>m_dragStart := \<lparr>px = clientX touch - p_x (m_person props),
                                                 py = clientY touch - p_y (m_person props)\<rparr>,
                                m_longPressTimer := Some timer\<rparr>,
                            tt2, [PersonSelect (p_id (m_person props))])))))"

definition MobilePersonNode_handleTouchMove ::
  "mobile_node_props \<Rightarrow> client_point list \<Rightarrow> mobile_node \<Rightarrow> string timer_table
     \<Rightarrow> js_failure + (mobile_node \<times> string timer_table \<times> mobile_emission list)" where
  "MobilePersonNode_handleTouchMove props ts n tt =
     (if m_isEditing n \<or> connectionMode props then Inr (n, tt, [])
      else
        (case ts of
           [] \<Rightarrow> (if m_longPressTimer n \<noteq> None \<or> m_isDragging n then Inl TypeError
                   else Inr (n, tt, []))
         | touch # _ \<Rightarrow>
             (let moveThreshold = 10;
                  (n1, tt1) =
                    (case m_longPressTimer n of
                       None \<Rightarrow> (n, tt)
                     | Some t \<Rightarrow>
                         (let deltaX = \<bar>clientX touch - (p_x (m_person props) + px (m_dragStart n))\<bar>;
                              deltaY = \<bar>clientY touch - (p_y (m_person props) + py (m_dragStart n))\<bar>
                          in if deltaX > moveThreshold \<or> deltaY > moveThreshold then
                               (n\<lparr>m_longPressTimer := None, m_isDragging := True\<rparr>, clearTimeout t tt)
                             else (n, tt)))
              in if m_isDragging n then
                   (let newX = max 0 (clientX touch - px (m_dragStart n));
                        newY = max 0 (clientY touch - py (m_dragStart n))
                    in Inr (n1, tt1,
                            [MPersonUpdate ((m_person props)\<lparr>p_x := snapToGrid newX,
                                                              p_y := snapToGrid newY\<rparr>)]))
                 else Inr (n1, tt1, []))))"

definition MobilePersonNode_handleTouchEnd ::
  "mobile_node \<Rightarrow> string timer_table \<Rightarrow> mobile_node \<times> string timer_table" where
  "MobilePersonNode_handleTouchEnd n tt =
     (case m_longPressTimer n of
        Some t \<Rightarrow> (n\<lparr>m_longPressTimer := None, m_isDragging := False\<rparr>, clearTimeout t tt)
      | None \<Rightarrow> (n\<lparr>m_isDragging := False\<rparr>, tt))"

text \<open>The callback of the long-press timeout of a mobile node.\<close>

definition MobilePersonNode_longPress :: "mobile_node \<Rightarrow> mobile_node" where
  "MobilePersonNode_longPress n = n\<lparr>m_isEditing := True, m_longPressTimer := None\<rparr>"

subsection \<open>\<open>MobileCanvas\<close>\<close>

record mobile_canvas =
  mc_isPanning :: bool
  mc_isZooming :: bool
  mc_lastTouchCenter :: point
  mc_lastTouchDistance :: real
  mc_touchStartTime :: int

definition initial_mobile_canvas :: mobile_canvas where
  "initial_mobile_canvas =
     \<lparr>mc_isPanning = False, mc_isZooming = False, mc_lastTouchCenter = \<lparr>px = 0, py = 0\<rparr>,
      mc_lastTouchDistance = 0, mc_touchStartTime = 0\<rparr>"

text \<open>
  A touch event as the canvas sees it; \<open>mt_isCanvas\<close> is \<open>target === canvasRef.current\<close>,
  \<open>mt_rect\<close> the bounding rectangle of the canvas element.
\<close>

record mobile_touch =
  mt_now :: int
  mt_touches :: "client_point list"
  mt_changedTouches :: "client_point list"
  mt_target :: dom_target
  mt_isCanvas :: bool
  mt_rect :: rect

text \<open>The props \<open>scale\<close>, \<open>offset\<close> and \<open>mode\<close> are read from the application state.\<close>

definition MobileCanvas_handleTouchStart ::
  "mobile_app \<Rightarrow> mobile_touch \<Rightarrow> mobile_canvas \<Rightarrow> js_failure + (mobile_canvas \<times> mobile_emission list)" where
  "MobileCanvas_handleTouchStart c e cv0 =
     (let cv = cv0\<lparr>mc_touchStartTime := mt_now e\<rparr>
      in if closest (mt_target e) ''[data-person-id]'' then Inr (cv, [])
         else
           (case mt_touches e of
              [touch] \<Rightarrow>
                (let cv1 = cv\<lparr>mc_lastTouchCenter := \<lparr>px = clientX touch, py = clientY touch\<rparr>\<rparr>
                 in if mode c = MAdd \<and> (mt_isCanvas e \<or> closest (mt_target e) ''.canvas-content'') then
                      (case num_div (clientX touch - rect_left (mt_rect e) - px (offset c)) (scale c) of
                         Inl f \<Rightarrow> Inl f
                       | Inr x \<Rightarrow>
                           (case num_div (clientY touch - rect_top (mt_rect e) - py (offset c)) (scale c) of
                              Inl f \<Rightarrow> Inl f
                            | Inr y \<Rightarrow> Inr (cv1, [CanvasTouch x y])))
                    else if mode c = MNavigate \<or> mode c = MConnect then
                      Inr (cv1\<lparr>mc_isPanning := True\<rparr>, [])
                    else Inr (cv1, []))
            | [touch1, touch2] \<Rightarrow>
                (case getTouchCenter (mt_touches e) of
                   Inl f \<Rightarrow> Inl f
                 | Inr center \<Rightarrow>
                     Inr (cv\<lparr>mc_isZooming := True, mc_isPanning := False,
                             mc_lastTouchDistance := getTouchDistance (mt_touches e),
                             mc_lastTouchCenter := center\<rparr>, []))
            | _ \<Rightarrow> Inr (cv, [])))"

definition MobileCanvas_handleTouchMove ::
  "mobile_app \<Rightarrow> mobile_touch \<Rightarrow> mobile_canvas \<Rightarrow> mobile_canvas \<times> mobile_emission list" where
  "MobileCanvas_handleTouchMove c e cv =
     (case mt_touches e of
        [touch] \<Rightarrow>
          (if mc_isPanning cv \<and> (mode c = MNavigate \<or> mode c = MConnect) then
             (let deltaX = clientX touch - px (mc_lastTouchCenter cv);
                  deltaY = clientY touch - py (mc_lastTouchCenter cv)
              in (cv\<lparr>mc_lastTouchCenter := \<lparr>px = clientX touch, py = clientY touch\<rparr>\<rparr>,
                  [OffsetChange \<lparr>px = px (offset c) + deltaX, py = py (offset c) + deltaY\<rparr>]))
           else (cv, []))
      | _ \<Rightarrow> (cv, []))"

definition MobileCanvas_handleTouchEnd ::
  "mobile_app \<Rightarrow> mobile_touch \<Rightarrow> mobile_canvas \<Rightarrow> js_failure + (mobile_canvas \<times> mobile_emission list)" where
  "MobileCanvas_handleTouchEnd c e cv =
     (let touchDuration = mt_now e - mc_touchStartTime cv
      in if mt_touches e = [] then
           (let cv1 = cv\<lparr>mc_isPanning := False, mc_isZooming := False\<rparr>
            in if touchDuration < 200 \<and> mode c = MConnect \<and> \<not> mc_isPanning cv then
                 (if mt_isCanvas e \<or> closest (mt_target e) ''.canvas-content'' then
                    (case mt_changedTouches e of
                       [] \<Rightarrow> Inl TypeError
                     | touch # _ \<Rightarrow>
                         (case num_div (clientX touch - rect_left (mt_rect e) - px (offset c)) (scale c) of
                            Inl f \<Rightarrow> Inl f
                          | Inr x \<Rightarrow>
                              (case num_div (clientY touch - rect_top (mt_rect e) - py (offset c)) (scale c) of
                                 Inl f \<Rightarrow> Inl f
                               | Inr y \<Rightarrow> Inr (cv1, [CanvasTouch x y]))))
                  else Inr (cv1, []))
               else Inr (cv1, []))
         else Inr (cv, []))"

subsection \<open>The mobile components together\<close>

text \<open>
  The application state, the canvas state, the local state of the node of each person id,
  and the timer table.
\<close>

record mobile_sys =
  app :: mobile_app
  canvas :: mobile_canvas
  nodes :: "string \<Rightarrow> mobile_node"
  timer_table :: "string timer_table"

text \<open>
  The system once the mount effect has put the stored tree into the state.
\<close>

definition mobile_start :: "family_tree \<Rightarrow> mobile_sys" where
  "mobile_start tree =
     \<lparr>app = initial_mobile_app\<lparr>familyTree := tree\<rparr>, canvas = initial_mobile_canvas,
      nodes = (\<lambda>_. initial_mobile_node), timer_table = \<lparr>pending = [], nextId = 1\<rparr>\<rparr>"

text \<open>
  Where a touch lands: on the node of a person, or on the canvas background (the
  \<open>canvas-content\<close> element). The nodes are children of the \<open>canvas-content\<close> element.
\<close>

datatype touch_place = OnNode string | OnBackground

fun target_of :: "touch_place \<Rightarrow> dom_target" where
  "target_of (OnNode pid) =
     \<lparr>classList = [], closest = (\<lambda>sel. sel = ''[data-person-id]'' \<or> sel = ''.canvas-content'')\<rparr>"
| "target_of OnBackground =
     \<lparr>classList = [''canvas-content''], closest = (\<lambda>sel. sel = ''.canvas-content'')\<rparr>"

record sys_touch =
  st_place :: touch_place
  st_now :: int
  st_nowString :: string
  st_touches :: "client_point list"
  st_changedTouches :: "client_point list"
  st_rect :: rect

definition canvas_touch :: "sys_touch \<Rightarrow> mobile_touch" where
  "canvas_touch e =
     \<lparr>mt_now = st_now e, mt_touches = st_touches e, mt_changedTouches = st_changedTouches e,
      mt_target = target_of (st_place e), mt_isCanvas = False, mt_rect = st_rect e\<rparr>"

text \<open>The callbacks that the application passes to its canvas and nodes.\<close>

fun mobile_emit :: "mobile_app \<Rightarrow> string \<Rightarrow> mobile_emission \<Rightarrow> mobile_app \<Rightarrow> js_failure + mobile_app" where
  "mobile_emit c newId (ConnectionStart pid x y) s = Inr (handleConnectionStart c pid x y s)"
| "mobile_emit c newId (PersonSelect pid) s = handlePersonSelect c newId pid s"
| "mobile_emit c newId (MPersonUpdate p) s = Inr (updatePerson p s)"
| "mobile_emit c newId (CanvasTouch x y) s = Inr (handleCanvasTouch c x y s)"
| "mobile_emit c newId (OffsetChange p) s = Inr (s\<lparr>offset := p\<rparr>)"

fun mobile_emit_all :: "mobile_app \<Rightarrow> string \<Rightarrow> mobile_emission list \<Rightarrow> mobile_app \<Rightarrow> js_failure + mobile_app" where
  "mobile_emit_all c newId [] s = Inr s"
| "mobile_emit_all c newId (e # es) s =
     (case mobile_emit c newId e s of Inl f \<Rightarrow> Inl f | Inr s' \<Rightarrow> mobile_emit_all c newId es s')"

text \<open>
  A node is on the screen when its person is in the tree of the last render; while it is
  editing it shows the editor in place of the element that has the touch handlers.
\<close>

definition touchable :: "mobile_sys \<Rightarrow> touch_place \<Rightarrow> bool" where
  "touchable s place =
     (case place of
        OnBackground \<Rightarrow> True
      | OnNode pid \<Rightarrow>
          find (\<lambda>p. p_id p = pid) (people (familyTree (app s))) \<noteq> None \<and> \<not> m_isEditing (nodes s pid))"

text \<open>
  The node's part of a touch event: the handler \<open>h\<close> of the node under the touch, with the
  props of the last render.
\<close>

definition touch_node ::
  "(mobile_node_props \<Rightarrow> mobile_node \<Rightarrow> string timer_table
      \<Rightarrow> js_failure + (mobile_node \<times> string timer_table \<times> mobile_emission list))
     \<Rightarrow> touch_place \<Rightarrow> mobile_sys \<Rightarrow> js_failure + (mobile_sys \<times> mobile_emission list)" where
  "touch_node h place s =
     (case place of
        OnBackground \<Rightarrow> Inr (s, [])
      | OnNode pid \<Rightarrow>
          (case find (\<lambda>p. p_id p = pid) (people (familyTree (app s))) of
             None \<Rightarrow> Inr (s, [])
           | Some p \<Rightarrow>
               (case h \<lparr>m_person = p, connectionMode = (mode (app s) = MConnect)\<rparr>
                       (nodes s pid) (timer_table s) of
                  Inl f \<Rightarrow> Inl f
                | Inr (n, tt, ems) \<Rightarrow> Inr (s\<lparr>nodes := (nodes s)(pid := n), timer_table := tt\<rparr>, ems))))"

text \<open>
  A touch event runs the handler of the node under it, then, bubbling, the handler of the
  canvas; both were created in the last render. The callbacks they call are applied in that
  order.
\<close>

definition finish_touch ::
  "sys_touch \<Rightarrow> mobile_sys \<Rightarrow> js_failure + (mobile_sys \<times> mobile_emission list)
     \<Rightarrow> js_failure + (mobile_canvas \<times> mobile_emission list) \<Rightarrow> js_failure + mobile_sys" where
  "finish_touch e s nodePart canvasPart =
     (case nodePart of
        Inl f \<Rightarrow> Inl f
      | Inr (s1, ems1) \<Rightarrow>
          (case canvasPart of
             Inl f \<Rightarrow> Inl f
           | Inr (cv, ems2) \<Rightarrow>
               (case mobile_emit_all (app s) (st_nowString e) (ems1 @ ems2) (app s) of
                  Inl f \<Rightarrow> Inl f
                | Inr a \<Rightarrow> Inr (s1\<lparr>app := a, canvas := cv\<rparr>))))"

datatype mobile_event =
    SetMode mobile_mode
  | MTouchStart sys_touch
  | MTouchMove sys_touch
  | MTouchEnd sys_touch
  | Elapse int
  | EditorDelete string
  | EditorCancel string
  | RelationshipDelete string

text \<open>
  \<open>Elapse now\<close>: time reaches \<open>now\<close> and the due timeouts run. \<open>EditorDelete\<close>: the
  delete button of the editor of a node, confirmed; the node of the deleted person is
  unmounted, so its local state is gone and its timeouts have nothing left to act on.
  \<open>RelationshipDelete\<close>: a touch on the line or label of a relationship, confirmed.
\<close>

fun mobile_step :: "mobile_event \<Rightarrow> mobile_sys \<Rightarrow> js_failure + mobile_sys" where
  "mobile_step (SetMode m) s = Inr (s\<lparr>app := setMode m (app s)\<rparr>)"
| "mobile_step (MTouchStart e) s =
     (if \<not> touchable s (st_place e) then Inr s
      else finish_touch e s
             (touch_node (\<lambda>props. MobilePersonNode_handleTouchStart props (st_now e) (st_touches e))
                (st_place e) s)
             (MobileCanvas_handleTouchStart (app s) (canvas_touch e) (canvas s)))"
| "mobile_step (MTouchMove e) s =
     (if \<not> touchable s (st_place e) then Inr s
      else finish_touch e s
             (touch_node (\<lambda>props. MobilePersonNode_handleTouchMove props (st_touches e))
                (st_place e) s)
             (Inr (MobileCanvas_handleTouchMove (app s) (canvas_touch e) (canvas s))))"
| "mobile_step (MTouchEnd e) s =
     (if \<not> touchable s (st_place e) then Inr s
      else finish_touch e s
             (touch_node (\<lambda>props n tt. Inr (case MobilePersonNode_handleTouchEnd n tt of
                                               (n', tt') \<Rightarrow> (n', tt', [])))
                (st_place e) s)
             (MobileCanvas_handleTouchEnd (app s) (canvas_touch e) (canvas s)))"
| "mobile_step (Elapse now) s =
     Inr (s\<lparr>nodes := fold (\<lambda>t ns. ns(t_closure t := MobilePersonNode_longPress (ns (t_closure t))))
                        (filter (\<lambda>t. t_due t \<le> now) (pending (timer_table s))) (nodes s),
            timer_table := (timer_table s)
              \<lparr>pending := filter (\<lambda>t. \<not> t_due t \<le> now) (pending (timer_table s))\<rparr>\<rparr>)"
| "mobile_step (EditorDelete pid) s =
     (if find (\<lambda>p. p_id p = pid) (people (familyTree (app s))) \<noteq> None \<and> m_isEditing (nodes s pid) then
        Inr (s\<lparr>app := deletePerson pid (app s),
               nodes := (nodes s)(pid := initial_mobile_node),
               timer_table := (timer_table s)
                 \<lparr>pending := filter (\<lambda>t. t_closure t \<noteq> pid) (pending (timer_table s))\<rparr>\<rparr>)
      else Inr s)"
| "mobile_step (EditorCancel pid) s =
     (if find (\<lambda>p. p_id p = pid) (people (familyTree (app s))) \<noteq> None \<and> m_isEditing (nodes s pid) then
        Inr (s\<lparr>nodes := (nodes s)(pid := (nodes s pid)\<lparr>m_isEditing := False\<rparr>)\<rparr>)
      else Inr s)"
| "mobile_step (RelationshipDelete rid) s = Inr (s\<lparr>app := deleteRelationship rid (app s)\<rparr>)"

fun mobile_run :: "mobile_event list \<Rightarrow> mobile_sys \<Rightarrow> js_failure + mobile_sys" where
  "mobile_run [] s = Inr s"
| "mobile_run (e # es) s =
     (case mobile_step e s of Inl f \<Rightarrow> Inl f | Inr s' \<Rightarrow> mobile_run es s')"

section \<open>Concrete inputs\<close>

text \<open>
  The inputs at which the properties below are evaluated: a canvas whose bounding rectangle
  starts at the origin of the viewport, events on its empty background, and a stored tree
  of two people.
\<close>

definition ex_rect :: rect where
  "ex_rect = \<lparr>rect_left = 0, rect_top = 0\<rparr>"

definition ex_background :: dom_target where
  "ex_background = \<lparr>classList = [''canvas-content''], closest = (\<lambda>sel. False)\<rparr>"

definition ex_add_props :: canvas_props where
  "ex_add_props =
     \<lparr>onCanvasClick = True, className = ''mode-add-person'', disableCanvasClick = False\<rparr>"

definition ex_touch :: "real \<Rightarrow> real \<Rightarrow> client_point" where
  "ex_touch x y = \<lparr>clientX = x, clientY = y\<rparr>"

text \<open>A wheel notch towards the user (zoom in) at the screen point (400, 300).\<close>

definition ex_wheel :: wheel_event where
  "ex_wheel =
     \<lparr>clientX = 400, clientY = 300, ctrlKey = False, metaKey = False, deltaX = 0, deltaY = - 100\<rparr>"

text \<open>A click, and a tap, at the screen point (220, 140) of the empty canvas.\<close>

definition ex_click :: mouse_event where
  "ex_click = \<lparr>clientX = 220, clientY = 140, button = 0, altKey = False, target = ex_background\<rparr>"

definition ex_tap :: touch_event where
  "ex_tap = \<lparr>touches = [ex_touch 220 140], touch_target = ex_background\<rparr>"

text \<open>Two fingers land 100 pixels apart.\<close>

definition ex_pinch_start :: touch_event where
  "ex_pinch_start = \<lparr>touches = [ex_touch 0 0, ex_touch 100 0], touch_target = ex_background\<rparr>"

text \<open>A press of the middle button at (400, 300): the canvas remembers the point.\<close>

definition ex_middle_press :: mouse_event where
  "ex_middle_press =
     \<lparr>clientX = 400, clientY = 300, button = 1, altKey = False, target = ex_background\<rparr>"

definition ann :: person where
  "ann = \<lparr>p_id = ''A'', p_x = 0, p_y = 0, p_name = ''Ann'',
           p_birthDate = None, p_deathDate = None, p_gender = None\<rparr>"

definition bob :: person where
  "bob = \<lparr>p_id = ''B'', p_x = 200, p_y = 0, p_name = ''Bob'',
           p_birthDate = None, p_deathDate = None, p_gender = None\<rparr>"

definition ex_tree :: family_tree where
  "ex_tree = \<lparr>people = [ann, bob], relationships = []\<rparr>"

text \<open>
  One finger at \<open>(x, y)\<close> on the given place at time \<open>now\<close> (for a touch start or a
  touch move), and the same finger lifted.
\<close>

definition finger_at :: "touch_place \<Rightarrow> int \<Rightarrow> string \<Rightarrow> real \<Rightarrow> real \<Rightarrow> sys_touch" where
  "finger_at place now nowString x y =
     \<lparr>st_place = place, st_now = now, st_nowString = nowString, st_touches = [ex_touch x y],
      st_changedTouches = [ex_touch x y], st_rect = ex_rect\<rparr>"

definition finger_lifted :: "touch_place \<Rightarrow> int \<Rightarrow> string \<Rightarrow> real \<Rightarrow> real \<Rightarrow> sys_touch" where
  "finger_lifted place now nowString x y =
     \<lparr>st_place = place, st_now = now, st_nowString = nowString, st_touches = [],
      st_changedTouches = [ex_touch x y], st_rect = ex_rect\<rparr>"

text \<open>The props of the desktop node of Ann in a given mode, on a canvas at rest.\<close>

definition ann_props :: "interaction_mode \<Rightarrow> node_props" where
  "ann_props m =
     \<lparr>person = ann, interactionMode = m, canvasRef = Some ex_rect, node_zoom = 1,
      node_pan = \<lparr>px = 0, py = 0\<rparr>\<rparr>"

definition no_timers :: "'a timer_table" where
  "no_timers = \<lparr>pending = [], nextId = 1\<rparr>"

definition ex_navigate_props :: canvas_props where
  "ex_navigate_props =
     \<lparr>onCanvasClick = True, className = ''mode-navigate'', disableCanvasClick = False\<rparr>"

text \<open>The view of the add-person scenario: zoom 2, pan (50, 50).\<close>

definition ex_view :: canvas_state where
  "ex_view = initial_canvas\<lparr>zoom := 2, pan := \<lparr>px = 50, py = 50\<rparr>\<rparr>"

text \<open>The canvas after two fingers have landed 100 pixels apart.\<close>

definition ex_pinching :: canvas_state where
  "ex_pinching =
     \<lparr>zoom = 1, pan = \<lparr>px = 0, py = 0\<rparr>, isPanning = False,
      lastPanPoint = \<lparr>px = 50, py = 0\<rparr>, isTouch = True, lastTouchDistance = 100\<rparr>"

text \<open>
  Event sequences of the mobile application, on the stored tree of Ann and Bob.
  A connection is started on Ann and the mode is switched while the finger is down:
\<close>

definition draft_then_switch :: "mobile_event list" where
  "draft_then_switch =
     [SetMode MConnect, MTouchStart (finger_at (OnNode ''A'') 1000 ''1000'' 10 10), SetMode MNavigate]"

text \<open>Ann's node is pressed in navigate mode, the mode is switched, and 600 ms pass:\<close>

definition hold_then_switch :: "mobile_event list" where
  "hold_then_switch =
     [MTouchStart (finger_at (OnNode ''A'') 1000 ''1000'' 10 10), SetMode MConnect, Elapse 1600]"

text \<open>A pan is started on the background and the mode is switched:\<close>

definition pan_then_switch :: "mobile_event list" where
  "pan_then_switch = [MTouchStart (finger_at OnBackground 1000 ''1000'' 300 300), SetMode MAdd]"

text \<open>Ann's node is pressed, and 300 ms later the finger has moved 15 pixels:\<close>

definition late_drag :: "mobile_event list" where
  "late_drag =
     [MTouchStart (finger_at (OnNode ''A'') 1000 ''1000'' 10 10),
      MTouchMove (finger_at (OnNode ''A'') 1300 ''1300'' 25 10)]"

text \<open>Ann's node is pressed in add mode and held for 600 ms:\<close>

definition hold_in_add_mode :: "mobile_event list" where
  "hold_in_add_mode =
     [SetMode MAdd, MTouchStart (finger_at (OnNode ''A'') 1000 ''1000'' 10 10), Elapse 1600]"

text \<open>
  A connection is started on Ann (a press of 300 ms); back in navigate mode Ann is
  long-pressed, and deleted from her editor; in connect mode again, Bob is touched:
\<close>

definition stale_draft :: "mobile_event list" where
  "stale_draft =
     [SetMode MConnect,
      MTouchStart (finger_at (OnNode ''A'') 1000 ''1000'' 10 10),
      MTouchEnd (finger_lifted (OnNode ''A'') 1300 ''1300'' 10 10),
      SetMode MNavigate,
      MTouchStart (finger_at (OnNode ''A'') 2000 ''2000'' 10 10),
      Elapse 2600,
      EditorDelete ''A'',
      SetMode MConnect,
      MTouchStart (finger_at (OnNode ''B'') 5000 ''5000'' 210 10)]"

text \<open>The same events up to the deletion of Ann:\<close>

definition until_ann_deleted :: "mobile_event list" where
  "until_ann_deleted =
     [SetMode MConnect,
      MTouchStart (finger_at (OnNode ''A'') 1000 ''1000'' 10 10),
      MTouchEnd (finger_lifted (OnNode ''A'') 1300 ''1300'' 10 10),
      SetMode MNavigate,
      MTouchStart (finger_at (OnNode ''A'') 2000 ''2000'' 10 10),
      Elapse 2600,
      EditorDelete ''A'']"

text \<open>
  In connect mode, a press of 300 ms on Ann followed by a touch on Ann again, and the same
  press followed by a touch on Bob:
\<close>

definition connect_ann_ann :: "mobile_event list" where
  "connect_ann_ann =
     [SetMode MConnect,
      MTouchStart (finger_at (OnNode ''A'') 1000 ''1000'' 10 10),
      MTouchEnd (finger_lifted (OnNode ''A'') 1300 ''1300'' 10 10),
      MTouchStart (finger_at (OnNode ''A'') 2000 ''2000'' 10 10)]"

definition connect_ann_bob :: "mobile_event list" where
  "connect_ann_bob =
     [SetMode MConnect,
      MTouchStart (finger_at (OnNode ''A'') 1000 ''1000'' 10 10),
      MTouchEnd (finger_lifted (OnNode ''A'') 1300 ''1300'' 10 10),
      MTouchStart (finger_at (OnNode ''B'') 2000 ''2000'' 210 10)]"

text \<open>Ann's node is pressed in navigate mode:\<close>

definition press_ann :: "mobile_event list" where
  "press_ann = [MTouchStart (finger_at (OnNode ''A'') 1000 ''1000'' 10 10)]"

text \<open>Ann's node is pressed in navigate mode and held until her editor opens:\<close>

definition edit_ann :: "mobile_event list" where
  "edit_ann = [MTouchStart (finger_at (OnNode ''A'') 1000 ''1000'' 10 10), Elapse 1600]"

text \<open>The application with a connection draft that started on Ann.\<close>

definition ex_drafting :: mobile_app where
  "ex_drafting =
     initial_mobile_app
       \<lparr>familyTree := ex_tree, mode := MConnect,
        connectionStart := Some \<lparr>cs_personId = ''A'', cs_x = 60, cs_y = 30\<rparr>\<rparr>"

text \<open>Ann's desktop node while a connection is dragged out of it.\<close>

definition ex_connecting :: node_state where
  "ex_connecting = initial_node\<lparr>isConnecting := True, dragStart := \<lparr>px = 75, py = 50\<rparr>\<rparr>"

text \<open>A hit test that finds the node of the given person everywhere.\<close>

definition hit_always :: "string \<Rightarrow> real \<Rightarrow> real \<Rightarrow> string option" where
  "hit_always pid x y = Some pid"

text \<open>A stored tree of three people: Ann is a parent of Bob, Bob of Carol.\<close>

definition carol :: person where
  "carol = \<lparr>p_id = ''C'', p_x = 400, p_y = 0, p_name = ''Carol'',
             p_birthDate = None, p_deathDate = None, p_gender = None\<rparr>"

definition ex_family :: family_tree where
  "ex_family =
     \<lparr>people = [ann, bob, carol],
      relationships = [\<lparr>r_id = ''r1'', r_type = Parent, r_from = ''A'', r_to = ''B''\<rparr>,
                       \<lparr>r_id = ''r2'', r_type = Parent, r_from = ''B'', r_to = ''C''\<rparr>]\<rparr>"

section \<open>Properties of the desktop canvas\<close>

lemma sqrt_10000: "sqrt 10000 = 100"
  by (rule real_sqrt_unique) simp_all

lemma sqrt_40000: "sqrt 40000 = 200"
  by (rule real_sqrt_unique) simp_all

text \<open>\<open>ex_pinching\<close> is the canvas after the touch start of the pinch.\<close>

lemma ex_pinching_reached:
  "handleTouchStart ex_navigate_props (Some ex_rect) ex_pinch_start initial_canvas = Inr (ex_pinching, [])"
  by (simp add: handleTouchStart_def ex_pinch_start_def ex_touch_def initial_canvas_def ex_pinching_def sqrt_10000)

lemma wheel_zoomAt:
  assumes "0 < zoom s" "\<not> ctrlKey e" "\<not> metaKey e"
  shows "\<exists>s'. handleWheel (Some r) e s = Inr s'
          \<and> zoom s' = max 0.1 (min 3 (zoom s * (if deltaY e > 0 then 0.9 else 1.1)))
          \<and> px (pan s') = px (pan s) - ((clientX e - rect_left r) - px (pan s)) * (zoom s' - zoom s) / zoom s
          \<and> py (pan s') = py (pan s) - ((clientY e - rect_top r) - py (pan s)) * (zoom s' - zoom s) / zoom s
          \<and> screenToCanvasCoords (Some r) (zoom s') (pan s') (clientX e) (clientY e)
            = screenToCanvasCoords (Some r) (zoom s) (pan s) (clientX e) (clientY e)"
proof -
  define z' where "z' = max 0.1 (min 3 (zoom s * (if deltaY e > 0 then 0.9 else 1.1)))"
  have z'pos: "0 < z'" unfolding z'_def by simp
  have zne: "zoom s \<noteq> 0" using assms by simp
  show ?thesis
    using assms z'pos zne unfolding handleWheel_def screenToCanvasCoords_def num_div_def z'_def[symmetric] Let_def
    apply (simp add: z'_def[symmetric])
    apply (simp add: field_simps)
    done
qed

lemma pinch_zoomAt:
  assumes "0 < zoom s" "0 < lastTouchDistance s"
  shows "\<exists>s'. handleTouchMove (Some r) [t1, t2] s = Inr s'
          \<and> zoom s' = max 0.1 (min 3 (zoom s * (getTouchDistance [t1, t2] / lastTouchDistance s)))
          \<and> px (pan s') = px (pan s) - (((clientX t1 + clientX t2) / 2 - rect_left r) - px (pan s)) * (zoom s' - zoom s) / zoom s
          \<and> py (pan s') = py (pan s) - (((clientY t1 + clientY t2) / 2 - rect_top r) - py (pan s)) * (zoom s' - zoom s) / zoom s
          \<and> screenToCanvasCoords (Some r) (zoom s') (pan s') ((clientX t1 + clientX t2) / 2) ((clientY t1 + clientY t2) / 2)
            = screenToCanvasCoords (Some r) (zoom s) (pan s) ((clientX t1 + clientX t2) / 2) ((clientY t1 + clientY t2) / 2)"
proof -
  define d where "d = getTouchDistance [t1, t2]"
  define z' where "z' = max 0.1 (min 3 (zoom s * (d / lastTouchDistance s)))"
  have z'pos: "0 < z'" unfolding z'_def by simp
  have zne: "zoom s \<noteq> 0" "lastTouchDistance s \<noteq> 0" using assms by simp_all
  show ?thesis
    using assms z'pos zne unfolding handleTouchMove_def screenToCanvasCoords_def num_div_def d_def[symmetric] Let_def
    apply (simp add: z'_def[symmetric] d_def[symmetric] del: getTouchDistance.simps)
    apply (simp add: field_simps)
    done
qed

text \<open>
  Claim C1. A wheel zoom at the screen point \<open>p\<close> (the cursor, relative to the canvas) and
  a pinch zoom at \<open>p\<close> (the midpoint of the two fingers) set the zoom to
  \<open>z' = clamp (z * f) 0.1 3.0\<close> and the pan to \<open>pan - (p - pan) * (z' - z) / z\<close>, and the
  world point under \<open>p\<close> afterwards is the world point under \<open>p\<close> before. Here \<open>f\<close> is
  0.9 or 1.1 for the wheel and the ratio of the finger distances for the pinch; the zoom
  before is positive.
\<close>

theorem zoom_to_point_invariance:
  assumes "0 < zoom s"
  shows "(\<not> ctrlKey e \<and> \<not> metaKey e \<longrightarrow>
           (\<exists>s'. handleWheel (Some r) e s = Inr s'
              \<and> zoom s' = max 0.1 (min 3 (zoom s * (if deltaY e > 0 then 0.9 else 1.1)))
              \<and> px (pan s') = px (pan s) - ((clientX e - rect_left r) - px (pan s)) * (zoom s' - zoom s) / zoom s
              \<and> py (pan s') = py (pan s) - ((clientY e - rect_top r) - py (pan s)) * (zoom s' - zoom s) / zoom s
              \<and> screenToCanvasCoords (Some r) (zoom s') (pan s') (clientX e) (clientY e)
                = screenToCanvasCoords (Some r) (zoom s) (pan s) (clientX e) (clientY e)))
       \<and> (0 < lastTouchDistance s \<longrightarrow>
           (\<exists>s'. handleTouchMove (Some r) [t1, t2] s = Inr s'
              \<and> zoom s' = max 0.1 (min 3 (zoom s * (getTouchDistance [t1, t2] / lastTouchDistance s)))
              \<and> px (pan s') = px (pan s) - (((clientX t1 + clientX t2) / 2 - rect_left r) - px (pan s)) * (zoom s' - zoom s) / zoom s
              \<and> py (pan s') = py (pan s) - (((clientY t1 + clientY t2) / 2 - rect_top r) - py (pan s)) * (zoom s' - zoom s) / zoom s
              \<and> screenToCanvasCoords (Some r) (zoom s') (pan s') ((clientX t1 + clientX t2) / 2) ((clientY t1 + clientY t2) / 2)
                = screenToCanvasCoords (Some r) (zoom s) (pan s) ((clientX t1 + clientX t2) / 2) ((clientY t1 + clientY t2) / 2)))"
  using wheel_zoomAt[OF assms, of e r] pinch_zoomAt[OF assms, of r t1 t2] by blast

text \<open>
  At the initial view, a wheel notch at (400, 300) gives zoom 1.1 and keeps the world point
  (400, 300) under the cursor; spreading two fingers from 100 to 200 pixels doubles the zoom
  about their midpoint.
\<close>

theorem zoom_to_point_invariance_witness:
  "0 < zoom initial_canvas \<and> \<not> ctrlKey ex_wheel \<and> \<not> metaKey ex_wheel
   \<and> handleWheel (Some ex_rect) ex_wheel initial_canvas
       = Inr (initial_canvas\<lparr>zoom := 1.1, pan := \<lparr>px = - 40, py = - 30\<rparr>\<rparr>)
   \<and> screenToCanvasCoords (Some ex_rect) 1.1 \<lparr>px = - 40, py = - 30\<rparr> 400 300 = Inr \<lparr>px = 400, py = 300\<rparr>
   \<and> screenToCanvasCoords (Some ex_rect) (zoom initial_canvas) (pan initial_canvas) 400 300
       = Inr \<lparr>px = 400, py = 300\<rparr>
   \<and> 0 < zoom ex_pinching \<and> 0 < lastTouchDistance ex_pinching
   \<and> handleTouchMove (Some ex_rect) [ex_touch 0 0, ex_touch 200 0] ex_pinching
       = Inr (ex_pinching\<lparr>zoom := 2, pan := \<lparr>px = - 100, py = 0\<rparr>, lastTouchDistance := 200,
                          lastPanPoint := \<lparr>px = 100, py = 0\<rparr>\<rparr>)
   \<and> screenToCanvasCoords (Some ex_rect) 2 \<lparr>px = - 100, py = 0\<rparr> 100 0 = Inr \<lparr>px = 100, py = 0\<rparr>
   \<and> screenToCanvasCoords (Some ex_rect) (zoom ex_pinching) (pan ex_pinching) 100 0
       = Inr \<lparr>px = 100, py = 0\<rparr>"
  using zoom_to_point_invariance[of initial_canvas ex_wheel ex_rect "ex_touch 0 0" "ex_touch 200 0"]
        zoom_to_point_invariance[of ex_pinching ex_wheel ex_rect "ex_touch 0 0" "ex_touch 200 0"]
  by (simp add: initial_canvas_def ex_wheel_def ex_rect_def ex_pinching_def ex_touch_def
        handleWheel_def handleTouchMove_def screenToCanvasCoords_def num_div_def sqrt_40000)

lemma length2E: "length ts = 2 \<Longrightarrow> \<exists>a b. ts = [a, b]"
  by (cases ts; cases "tl ts") auto

lemma handleTouchMove_range:
  assumes "0.1 \<le> zoom s" "zoom s \<le> 3"
  shows "\<exists>s'. handleTouchMove r ts s = Inr s' \<and> 0.1 \<le> zoom s' \<and> zoom s' \<le> 3"
proof (cases "length ts = 2")
  case True
  then obtain a b where ts: "ts = [a, b]" using length2E by blast
  have zne: "zoom s \<noteq> 0" using assms by simp
  show ?thesis
  proof (cases "0 < lastTouchDistance s")
    case pos: True
    then have lne: "lastTouchDistance s \<noteq> 0" by simp
    show ?thesis
      using assms zne pos lne
      unfolding ts handleTouchMove_def num_div_def Let_def
      by (cases r) (auto simp: max_def min_def simp del: getTouchDistance.simps)
  next
    case False
    then show ?thesis using assms unfolding ts handleTouchMove_def Let_def by simp
  qed
next
  case False
  show ?thesis
  proof (cases "length ts = 1 \<and> isPanning s")
    case True
    then obtain a where "ts = [a]" by (cases ts) auto
    then show ?thesis using assms True unfolding handleTouchMove_def Let_def by simp
  next
    case F2: False
    then show ?thesis using assms False unfolding handleTouchMove_def by auto
  qed
qed

lemma handleWheel_range:
  assumes "0.1 \<le> zoom s" "zoom s \<le> 3"
  shows "\<exists>s'. handleWheel r w s = Inr s' \<and> 0.1 \<le> zoom s' \<and> zoom s' \<le> 3"
  using assms by (auto simp: handleWheel_def num_div_def Let_def split: option.splits)

lemma handleMouseDown_view:
  assumes "zoom s \<noteq> 0"
  shows "\<exists>out. handleMouseDown props r m s = Inr out \<and> zoom (fst out) = zoom s \<and> pan (fst out) = pan s"
  using assms by (auto simp: handleMouseDown_def num_div_def Let_def split: option.splits)

lemma handleTouchStart_view:
  assumes "zoom s \<noteq> 0"
  shows "\<exists>out. handleTouchStart props r t s = Inr out \<and> zoom (fst out) = zoom s \<and> pan (fst out) = pan s"
  using assms by (auto simp: handleTouchStart_def num_div_def Let_def split: option.splits list.splits)

lemma canvas_step_range:
  assumes "0.1 \<le> zoom s" "zoom s \<le> 3"
  shows "\<exists>s'. canvas_step props e s = Inr s' \<and> 0.1 \<le> zoom s' \<and> zoom s' \<le> 3"
proof (cases e)
  case (Wheel r w)
  then show ?thesis using handleWheel_range[OF assms] by simp
next
  case (MouseDown r m)
  have "zoom s \<noteq> 0" using assms by simp
  from handleMouseDown_view[OF this, of props r m] MouseDown assms show ?thesis by auto
next
  case (TouchStart r t)
  have "zoom s \<noteq> 0" using assms by simp
  from handleTouchStart_view[OF this, of props r t] TouchStart assms show ?thesis by auto
next
  case (TouchMove r ts)
  then show ?thesis using handleTouchMove_range[OF assms] by simp
next
  case (TouchEnd ts)
  then show ?thesis using assms
    by (auto simp: handleTouchEnd_def split: list.splits)
qed (use assms in \<open>auto simp: handleMouseMove_def handleMouseUp_def resetView_def returnToOrigin_def zoomIn_def zoomOut_def Let_def\<close>)

lemma canvas_run_range:
  assumes "0.1 \<le> zoom s" "zoom s \<le> 3"
  shows "\<exists>s'. canvas_run props es s = Inr s' \<and> 0.1 \<le> zoom s' \<and> zoom s' \<le> 3"
  using assms
proof (induction es arbitrary: s)
  case Nil then show ?case by simp
next
  case (Cons e es)
  from canvas_step_range[OF Cons.prems, of props e] obtain s1 where
    s1: "canvas_step props e s = Inr s1" "0.1 \<le> zoom s1" "zoom s1 \<le> 3" by blast
  from Cons.IH[OF s1(2,3)] s1(1) show ?case by simp
qed

text \<open>
  Claim C2. From the initial view (zoom 1), after every sequence of canvas events (wheel,
  pinch, the zoom-in and zoom-out buttons, the reset buttons, and all the others) the zoom
  is in the closed interval from 0.1 to 3.0, and no handler has produced a value that is no
  number; every single event takes a zoom in the interval to a zoom in the interval.
\<close>

theorem zoom_clamp_invariant:
  "(\<exists>s. canvas_run props es initial_canvas = Inr s \<and> 0.1 \<le> zoom s \<and> zoom s \<le> 3)
   \<and> (0.1 \<le> zoom s0 \<and> zoom s0 \<le> 3 \<longrightarrow>
        (\<exists>s'. canvas_step props e s0 = Inr s' \<and> 0.1 \<le> zoom s' \<and> zoom s' \<le> 3))"
proof -
  have "0.1 \<le> zoom initial_canvas" "zoom initial_canvas \<le> 3"
    by (simp_all add: initial_canvas_def)
  from canvas_run_range[OF this] canvas_step_range show ?thesis by blast
qed

text \<open>
  Seven presses of the zoom-in button and one more wheel notch stop at zoom 3; one press of
  zoom-out from the initial view gives 1 / 1.2.
\<close>

theorem zoom_clamp_invariant_witness:
  "canvas_run ex_navigate_props
      [ZoomIn, ZoomIn, ZoomIn, ZoomIn, ZoomIn, ZoomIn, ZoomIn, Wheel (Some ex_rect) ex_wheel]
      initial_canvas
     = Inr (initial_canvas\<lparr>zoom := 3\<rparr>)
   \<and> 0.1 \<le> zoom initial_canvas \<and> zoom initial_canvas \<le> 3
   \<and> canvas_step ex_navigate_props ZoomOut initial_canvas = Inr (initial_canvas\<lparr>zoom := 5 / 6\<rparr>)"
  using zoom_clamp_invariant[of ex_navigate_props
          "[ZoomIn, ZoomIn, ZoomIn, ZoomIn, ZoomIn, ZoomIn, ZoomIn, Wheel (Some ex_rect) ex_wheel]"
          initial_canvas ZoomOut]
  by (simp add: initial_canvas_def zoomIn_def zoomOut_def handleWheel_def ex_wheel_def ex_rect_def num_div_def)

text \<open>
  Claim C6 says that the zoom buttons are a zoom about the viewport centre or the last
  known point, recomputing the pan. They are not: after a middle-button press at (400, 300),
  the centre of an 800 by 600 viewport and now the last known point, the zoom-in button
  changes the zoom to 1.2 and leaves the pan at (0, 0), so the world point under (400, 300)
  moves from (400, 300) to (1000/3, 250).
\<close>

theorem zoom_step_counterexample:
  "canvas_run ex_navigate_props [MouseDown (Some ex_rect) ex_middle_press, MouseUp] initial_canvas
     = Inr (initial_canvas\<lparr>lastPanPoint := \<lparr>px = 400, py = 300\<rparr>\<rparr>)
   \<and> zoomIn (initial_canvas\<lparr>lastPanPoint := \<lparr>px = 400, py = 300\<rparr>\<rparr>)
     = initial_canvas\<lparr>lastPanPoint := \<lparr>px = 400, py = 300\<rparr>, zoom := 6 / 5\<rparr>
   \<and> screenToCanvasCoords (Some ex_rect) 1 \<lparr>px = 0, py = 0\<rparr> 400 300 = Inr \<lparr>px = 400, py = 300\<rparr>
   \<and> screenToCanvasCoords (Some ex_rect) (6 / 5) \<lparr>px = 0, py = 0\<rparr> 400 300
     = Inr \<lparr>px = 1000 / 3, py = 250\<rparr>"
  by (simp add: initial_canvas_def handleMouseDown_def handleMouseUp_def ex_middle_press_def
        zoomIn_def screenToCanvasCoords_def ex_rect_def num_div_def)

text \<open>
  Claim C6, amended. The zoom-in button multiplies the zoom by 1.2 and caps it at 3.0, the
  zoom-out button divides it by 1.2 and floors it at 0.1 (for a zoom in the interval that is
  the clamp to the interval), and both leave the pan unchanged. The screen point that keeps
  its world point is the one where the world origin is drawn (the pan), and while the zoom
  changes it is the only one.
\<close>

theorem zoom_step_keeps_pan:
  "pan (zoomIn s) = pan s \<and> zoom (zoomIn s) = min 3 (zoom s * 1.2)
   \<and> pan (zoomOut s) = pan s \<and> zoom (zoomOut s) = max 0.1 (zoom s / 1.2)
   \<and> (0.1 \<le> zoom s \<and> zoom s \<le> 3 \<longrightarrow>
        zoom (zoomIn s) = max 0.1 (min 3 (zoom s * 1.2))
        \<and> zoom (zoomOut s) = max 0.1 (min 3 (zoom s / 1.2)))
   \<and> (0.1 \<le> zoom s \<and> zoom s < 3 \<longrightarrow>
        (screenToCanvasCoords (Some r) (zoom (zoomIn s)) (pan (zoomIn s)) x y
           = screenToCanvasCoords (Some r) (zoom s) (pan s) x y
         \<longleftrightarrow> x - rect_left r = px (pan s) \<and> y - rect_top r = py (pan s)))
   \<and> (0.1 < zoom s \<and> zoom s \<le> 3 \<longrightarrow>
        (screenToCanvasCoords (Some r) (zoom (zoomOut s)) (pan (zoomOut s)) x y
           = screenToCanvasCoords (Some r) (zoom s) (pan s) x y
         \<longleftrightarrow> x - rect_left r = px (pan s) \<and> y - rect_top r = py (pan s)))"
proof -
  have fixpt: "(screenToCanvasCoords (Some r) z' p x y = screenToCanvasCoords (Some r) z p x y)
               \<longleftrightarrow> x - rect_left r = px p \<and> y - rect_top r = py p"
    if "0 < z" "0 < z'" "z' \<noteq> z" for z z' :: real and p
    using that by (auto simp: screenToCanvasCoords_def num_div_def field_simps)
  have A: "screenToCanvasCoords (Some r) (zoom (zoomIn s)) (pan (zoomIn s)) x y
           = screenToCanvasCoords (Some r) (zoom s) (pan s) x y
         \<longleftrightarrow> x - rect_left r = px (pan s) \<and> y - rect_top r = py (pan s)"
    if h: "0.1 \<le> zoom s" "zoom s < 3"
  proof -
    have z: "0 < zoom s" using h by simp
    have z': "0 < zoom (zoomIn s)" "zoom (zoomIn s) \<noteq> zoom s"
      using h by (auto simp: zoomIn_def min_def)
    have p: "pan (zoomIn s) = pan s" by (simp add: zoomIn_def)
    show ?thesis unfolding p by (rule fixpt[OF z z'])
  qed
  have B: "screenToCanvasCoords (Some r) (zoom (zoomOut s)) (pan (zoomOut s)) x y
           = screenToCanvasCoords (Some r) (zoom s) (pan s) x y
         \<longleftrightarrow> x - rect_left r = px (pan s) \<and> y - rect_top r = py (pan s)"
    if h: "0.1 < zoom s" "zoom s \<le> 3"
  proof -
    have z: "0 < zoom s" using h by simp
    have z': "0 < zoom (zoomOut s)" "zoom (zoomOut s) \<noteq> zoom s"
      using h by (auto simp: zoomOut_def max_def)
    have p: "pan (zoomOut s) = pan s" by (simp add: zoomOut_def)
    show ?thesis unfolding p by (rule fixpt[OF z z'])
  qed
  have C: "zoom (zoomIn s) = max 0.1 (min 3 (zoom s * 1.2)) \<and> zoom (zoomOut s) = max 0.1 (min 3 (zoom s / 1.2))"
    if "0.1 \<le> zoom s" "zoom s \<le> 3"
    using that by (auto simp: zoomIn_def zoomOut_def max_def min_def)
  have D: "pan (zoomIn s) = pan s \<and> zoom (zoomIn s) = min 3 (zoom s * 1.2)
           \<and> pan (zoomOut s) = pan s \<and> zoom (zoomOut s) = max 0.1 (zoom s / 1.2)"
    by (simp add: zoomIn_def zoomOut_def)
  from A B C D show ?thesis by blast
qed

text \<open>At the initial view: the origin stays, the point (400, 300) does not.\<close>

theorem zoom_step_keeps_pan_witness:
  "0.1 \<le> zoom initial_canvas \<and> 0.1 < zoom initial_canvas \<and> zoom initial_canvas < 3
   \<and> zoomIn initial_canvas = initial_canvas\<lparr>zoom := 6 / 5\<rparr>
   \<and> zoomOut initial_canvas = initial_canvas\<lparr>zoom := 5 / 6\<rparr>
   \<and> screenToCanvasCoords (Some ex_rect) (6 / 5) \<lparr>px = 0, py = 0\<rparr> 0 0 = Inr \<lparr>px = 0, py = 0\<rparr>
   \<and> screenToCanvasCoords (Some ex_rect) (6 / 5) \<lparr>px = 0, py = 0\<rparr> 400 300
      \<noteq> screenToCanvasCoords (Some ex_rect) 1 \<lparr>px = 0, py = 0\<rparr> 400 300"
  using zoom_step_keeps_pan[of initial_canvas ex_rect 400 300]
  by (simp add: initial_canvas_def zoomIn_def zoomOut_def screenToCanvasCoords_def ex_rect_def num_div_def)

text \<open>
  Claim C7. In add-person mode, with the click callback present, a press of the primary
  button or a one-finger touch on the empty canvas at the screen point \<open>s\<close> (relative to
  the canvas element) calls the callback with the world point \<open>(s - pan) / zoom\<close>.
\<close>

theorem add_person_tap_world_point:
  assumes "zoom s \<noteq> 0"
    and "onCanvasClick props" and "str_includes (className props) ''mode-add-person''"
    and "''interactive-canvas'' \<in> set (classList t) \<or> ''canvas-content'' \<in> set (classList t)"
  shows "(button e = 0 \<and> \<not> altKey e \<and> \<not> disableCanvasClick props \<and> target e = t
          \<and> \<not> closest t ''.person-node'' \<and> \<not> closest t ''[data-person-id]''
          \<and> \<not> closest t ''button'' \<and> \<not> closest t ''input'' \<and> \<not> closest t ''select'' \<longrightarrow>
          handleMouseDown props (Some r) e s
            = Inr (s, [CanvasClick ((clientX e - rect_left r - px (pan s)) / zoom s)
                                   ((clientY e - rect_top r - py (pan s)) / zoom s)]))
       \<and> (touches te = [touch] \<and> touch_target te = t \<longrightarrow>
          handleTouchStart props (Some r) te s
            = Inr (s\<lparr>isTouch := True\<rparr>,
                   [CanvasClick ((clientX touch - rect_left r - px (pan s)) / zoom s)
                                ((clientY touch - rect_top r - py (pan s)) / zoom s)]))"
  using assms by (auto simp: handleMouseDown_def handleTouchStart_def num_div_def Let_def)

text \<open>A tap at (220, 140) with pan (50, 50) and zoom 2 places the person at (85, 45).\<close>

theorem add_person_tap_world_point_witness:
  "zoom ex_view = 2 \<and> pan ex_view = \<lparr>px = 50, py = 50\<rparr>
   \<and> handleMouseDown ex_add_props (Some ex_rect) ex_click ex_view = Inr (ex_view, [CanvasClick 85 45])
   \<and> handleTouchStart ex_add_props (Some ex_rect) ex_tap ex_view
       = Inr (ex_view\<lparr>isTouch := True\<rparr>, [CanvasClick 85 45])"
  using add_person_tap_world_point[of ex_view ex_add_props ex_background ex_click ex_rect ex_tap "ex_touch 220 140"]
  by (simp add: ex_view_def initial_canvas_def ex_add_props_def ex_background_def ex_click_def
        ex_tap_def ex_touch_def ex_rect_def)

text \<open>
  Claim C10 says that the first two-finger move after the start of a pinch leaves zoom and
  pan unchanged. The touch start of the second finger stores the distance of the fingers, so
  the first move already zooms: fingers that land 100 pixels apart and move to 200 pixels
  apart take the zoom from 1 to 2 and the pan from (0, 0) to (-100, 0).
\<close>

theorem pinch_first_move_counterexample:
  "canvas_run ex_navigate_props
     [TouchStart (Some ex_rect) ex_pinch_start, TouchMove (Some ex_rect) [ex_touch 0 0, ex_touch 200 0]]
     initial_canvas
   = Inr \<lparr>zoom = 2, pan = \<lparr>px = - 100, py = 0\<rparr>, isPanning = False,
          lastPanPoint = \<lparr>px = 100, py = 0\<rparr>, isTouch = True, lastTouchDistance = 200\<rparr>
   \<and> zoom initial_canvas = 1 \<and> pan initial_canvas = \<lparr>px = 0, py = 0\<rparr>"
  by (simp add: initial_canvas_def handleTouchStart_def handleTouchMove_def ex_pinch_start_def
        ex_touch_def ex_rect_def num_div_def sqrt_10000 sqrt_40000)

text \<open>
  Claim C10, amended. The touch-move handler divides by the stored previous distance only
  when it is positive, so that with a non-zero zoom it never produces a value that is no
  number; a touch end that leaves one finger or none resets the stored distance to 0; a
  two-finger move that finds the stored distance at 0 leaves zoom and pan unchanged and
  stores the distance; a two-finger touch start stores the distance of the fingers.
\<close>

theorem pinch_division_guard:
  "(zoom s \<noteq> 0 \<longrightarrow> (\<exists>s'. handleTouchMove r ts s = Inr s'))
   \<and> (length ts \<le> 1 \<longrightarrow> lastTouchDistance (handleTouchEnd ts s) = 0)
   \<and> (lastTouchDistance s \<le> 0 \<and> length ts = 2 \<longrightarrow>
        (\<exists>c. getTouchCenter ts = Inr c
           \<and> handleTouchMove r ts s = Inr (s\<lparr>lastTouchDistance := getTouchDistance ts, lastPanPoint := c\<rparr>)))
   \<and> (length ts = 2 \<longrightarrow>
        (\<exists>c. getTouchCenter ts = Inr c
           \<and> handleTouchStart props r \<lparr>touches = ts, touch_target = t\<rparr> s
             = Inr (s\<lparr>isTouch := True, isPanning := False,
                      lastTouchDistance := getTouchDistance ts, lastPanPoint := c\<rparr>, [])))"
proof -
  have A: "\<exists>s'. handleTouchMove r ts s = Inr s'" if "zoom s \<noteq> 0"
  proof (cases "length ts = 2")
    case True
    then obtain a b where ts: "ts = [a, b]" using length2E by blast
    show ?thesis using that unfolding ts handleTouchMove_def num_div_def Let_def
      by (cases r) (auto simp del: getTouchDistance.simps)
  next
    case False
    show ?thesis
    proof (cases "length ts = 1 \<and> isPanning s")
      case True
      then obtain a where "ts = [a]" by (cases ts) auto
      then show ?thesis using True unfolding handleTouchMove_def Let_def by simp
    next
      case F2: False
      then show ?thesis using False unfolding handleTouchMove_def by auto
    qed
  qed
  have B: "lastTouchDistance (handleTouchEnd ts s) = 0" if "length ts \<le> 1"
    using that by (cases ts; cases "tl ts") (auto simp: handleTouchEnd_def)
  have C: "\<exists>c. getTouchCenter ts = Inr c
           \<and> handleTouchMove r ts s = Inr (s\<lparr>lastTouchDistance := getTouchDistance ts, lastPanPoint := c\<rparr>)"
    if h: "lastTouchDistance s \<le> 0" "length ts = 2"
  proof -
    obtain a b where ts: "ts = [a, b]" using h(2) length2E by blast
    show ?thesis using h unfolding ts handleTouchMove_def Let_def
      by (simp del: getTouchDistance.simps)
  qed
  have D: "\<exists>c. getTouchCenter ts = Inr c
           \<and> handleTouchStart props r \<lparr>touches = ts, touch_target = t\<rparr> s
             = Inr (s\<lparr>isTouch := True, isPanning := False,
                      lastTouchDistance := getTouchDistance ts, lastPanPoint := c\<rparr>, [])"
    if h: "length ts = 2"
  proof -
    obtain a b where ts: "ts = [a, b]" using h length2E by blast
    show ?thesis unfolding ts handleTouchStart_def Let_def
      by (simp del: getTouchDistance.simps)
  qed
  from A B C D show ?thesis by blast
qed

text \<open>
  A pinch from 100 to 200 pixels, the lift of one finger, and a two-finger move on a canvas
  that has stored no distance.
\<close>

theorem pinch_division_guard_witness:
  "zoom ex_pinching \<noteq> 0
   \<and> handleTouchMove (Some ex_rect) [ex_touch 0 0, ex_touch 200 0] ex_pinching
       = Inr (ex_pinching\<lparr>zoom := 2, pan := \<lparr>px = - 100, py = 0\<rparr>, lastTouchDistance := 200,
                          lastPanPoint := \<lparr>px = 100, py = 0\<rparr>\<rparr>)
   \<and> length [ex_touch 0 0] \<le> 1
   \<and> handleTouchEnd [ex_touch 0 0] ex_pinching
       = ex_pinching\<lparr>lastPanPoint := \<lparr>px = 0, py = 0\<rparr>, lastTouchDistance := 0\<rparr>
   \<and> lastTouchDistance initial_canvas \<le> 0 \<and> length [ex_touch 0 0, ex_touch 200 0] = 2
   \<and> handleTouchMove (Some ex_rect) [ex_touch 0 0, ex_touch 200 0] initial_canvas
       = Inr (initial_canvas\<lparr>lastTouchDistance := 200, lastPanPoint := \<lparr>px = 100, py = 0\<rparr>\<rparr>)
   \<and> handleTouchStart ex_navigate_props (Some ex_rect) ex_pinch_start initial_canvas
       = Inr (ex_pinching, [])"
  using pinch_division_guard[of ex_pinching "Some ex_rect" "[ex_touch 0 0, ex_touch 200 0]" ex_navigate_props ex_background]
        pinch_division_guard[of ex_pinching "Some ex_rect" "[ex_touch 0 0]" ex_navigate_props ex_background]
        pinch_division_guard[of initial_canvas "Some ex_rect" "[ex_touch 0 0, ex_touch 200 0]" ex_navigate_props ex_background]
  by (simp add: initial_canvas_def ex_pinching_def handleTouchStart_def handleTouchMove_def handleTouchEnd_def
        ex_pinch_start_def ex_touch_def ex_rect_def num_div_def sqrt_10000 sqrt_40000)

section \<open>Properties of the nodes and of the mobile application\<close>

lemmas mobile_defs =
  mobile_start_def initial_mobile_app_def initial_mobile_canvas_def initial_mobile_node_def
  touchable_def touch_node_def finish_touch_def canvas_touch_def setMode_def
  MobilePersonNode_handleTouchStart_def MobilePersonNode_handleTouchMove_def
  MobilePersonNode_handleTouchEnd_def MobilePersonNode_longPress_def
  MobileCanvas_handleTouchStart_def MobileCanvas_handleTouchMove_def MobileCanvas_handleTouchEnd_def
  handlePersonSelect_def handleConnectionStart_def handleCanvasTouch_def addRelationship_def
  deletePerson_def updatePerson_def setTimeout_def clearTimeout_def num_div_def

lemmas example_defs =
  ann_def bob_def carol_def ex_tree_def ex_family_def finger_at_def finger_lifted_def ex_touch_def
  ex_rect_def

lemma clear_remembered:
  assumes "\<forall>x\<in>set (pending tt). remembered = Some (t_id x)"
  shows "pending (case remembered of Some t \<Rightarrow> clearTimeout t tt | None \<Rightarrow> tt) = []"
  using assms by (cases remembered) (auto simp: clearTimeout_def filter_empty_conv)

lemma PersonNode_arm:
  assumes "\<not> isEditing n" "interactionMode props \<noteq> Connect"
    and "\<forall>x\<in>set (pending tt). longPressTimer n = Some (t_id x)"
  shows "PersonNode_handleTouchStart props t0 [down] n tt
         = Inr (n\<lparr>touchStartTime := t0,
                  dragStart := \<lparr>px = clientX down - p_x (person props), py = clientY down - p_y (person props)\<rparr>,
                  longPressTimer := Some (nextId tt)\<rparr>,
                \<lparr>pending = [\<lparr>t_id = nextId tt, t_due = t0 + 500, t_closure = interactionMode props\<rparr>],
                 nextId = Suc (nextId tt)\<rparr>,
                [Select])"
proof -
  have m: "interactionMode props = Navigate \<or> interactionMode props = AddPerson"
    using assms(2) by (cases "interactionMode props") auto
  have c: "pending (case longPressTimer n of Some t \<Rightarrow> clearTimeout t tt | None \<Rightarrow> tt) = []"
    by (rule clear_remembered[OF assms(3)])
  have k: "nextId (case longPressTimer n of Some t \<Rightarrow> clearTimeout t tt | None \<Rightarrow> tt) = nextId tt"
    by (cases "longPressTimer n") (simp_all add: clearTimeout_def)
  show ?thesis
    using assms(1,2) m c k
    by (auto simp: PersonNode_handleTouchStart_def Let_def setTimeout_def)
qed


lemma MobilePersonNode_arm:
  assumes "\<not> m_isEditing n" "\<not> connectionMode props"
    and "\<forall>x\<in>set (pending tt). m_longPressTimer n = Some (t_id x)"
  shows "MobilePersonNode_handleTouchStart props t0 (down # rest) n tt
         = Inr (n\<lparr>m_dragStart := \<lparr>px = clientX down - p_x (m_person props),
                                    py = clientY down - p_y (m_person props)\<rparr>,
                  m_longPressTimer := Some (nextId tt)\<rparr>,
                \<lparr>pending = [\<lparr>t_id = nextId tt, t_due = t0 + 600, t_closure = p_id (m_person props)\<rparr>],
                 nextId = Suc (nextId tt)\<rparr>,
                [PersonSelect (p_id (m_person props))])"
proof -
  have c: "pending (case m_longPressTimer n of Some t \<Rightarrow> clearTimeout t tt | None \<Rightarrow> tt) = []"
    by (rule clear_remembered[OF assms(3)])
  have k: "nextId (case m_longPressTimer n of Some t \<Rightarrow> clearTimeout t tt | None \<Rightarrow> tt) = nextId tt"
    by (cases "m_longPressTimer n") (simp_all add: clearTimeout_def)
  show ?thesis
    using assms(1,2) c k
    by (auto simp: MobilePersonNode_handleTouchStart_def Let_def setTimeout_def)
qed

text \<open>
  Claim C4, amended. A touch on a node that is idle, outside connect mode, arms the
  long-press timeout. A touch move whose displacement since the touch-down exceeds 10
  pixels in either axis then clears the timeout, so that no later time makes it run. The
  desktop \<open>PersonNode\<close> becomes dragging exactly when the move comes less than 200 ms
  after the touch-down; \<open>MobilePersonNode\<close> becomes dragging whatever time has passed.
  That first move does not yet move the person.
\<close>

theorem long_press_cancellation:
  assumes "10 < \<bar>clientX mv - clientX down\<bar> \<or> 10 < \<bar>clientY mv - clientY down\<bar>"
  shows "(\<not> isEditing n \<and> \<not> isDragging n \<and> \<not> isConnecting n \<and> interactionMode props \<noteq> Connect
          \<and> (\<forall>x\<in>set (pending tt). longPressTimer n = Some (t_id x)) \<longrightarrow>
          (\<exists>n1 tt1. PersonNode_handleTouchStart props t0 [down] n tt = Inr (n1, tt1, [Select])
             \<and> longPressTimer n1 = Some (nextId tt)
             \<and> pending tt1 = [\<lparr>t_id = nextId tt, t_due = t0 + 500, t_closure = interactionMode props\<rparr>]
             \<and> PersonNode_handleTouchMove props t1 [mv] n1 tt1
               = Inr (n1\<lparr>longPressTimer := None, isDragging := (t1 - t0 < 200)\<rparr>, tt1\<lparr>pending := []\<rparr>, [])
             \<and> (\<forall>later n2. PersonNode_elapse later n2 (tt1\<lparr>pending := []\<rparr>) = (n2, tt1\<lparr>pending := []\<rparr>))))
       \<and> (\<not> m_isEditing mn \<and> \<not> m_isDragging mn \<and> \<not> connectionMode mprops
          \<and> (\<forall>x\<in>set (pending mtt). m_longPressTimer mn = Some (t_id x)) \<longrightarrow>
          (\<exists>mn1 mtt1. MobilePersonNode_handleTouchStart mprops t0 (down # rest) mn mtt
               = Inr (mn1, mtt1, [PersonSelect (p_id (m_person mprops))])
             \<and> m_longPressTimer mn1 = Some (nextId mtt)
             \<and> pending mtt1 = [\<lparr>t_id = nextId mtt, t_due = t0 + 600, t_closure = p_id (m_person mprops)\<rparr>]
             \<and> MobilePersonNode_handleTouchMove mprops (mv # rest') mn1 mtt1
               = Inr (mn1\<lparr>m_longPressTimer := None, m_isDragging := True\<rparr>, mtt1\<lparr>pending := []\<rparr>, [])))"
proof -
  have D: "\<exists>n1 tt1. PersonNode_handleTouchStart props t0 [down] n tt = Inr (n1, tt1, [Select])
             \<and> longPressTimer n1 = Some (nextId tt)
             \<and> pending tt1 = [\<lparr>t_id = nextId tt, t_due = t0 + 500, t_closure = interactionMode props\<rparr>]
             \<and> PersonNode_handleTouchMove props t1 [mv] n1 tt1
               = Inr (n1\<lparr>longPressTimer := None, isDragging := (t1 - t0 < 200)\<rparr>, tt1\<lparr>pending := []\<rparr>, [])
             \<and> (\<forall>later n2. PersonNode_elapse later n2 (tt1\<lparr>pending := []\<rparr>) = (n2, tt1\<lparr>pending := []\<rparr>))"
    if h: "\<not> isEditing n" "\<not> isDragging n" "interactionMode props \<noteq> Connect"
          "\<forall>x\<in>set (pending tt). longPressTimer n = Some (t_id x)" "\<not> isConnecting n"
  proof -
    have m: "interactionMode props = Navigate \<or> interactionMode props = AddPerson"
      using h(3) by (cases "interactionMode props") auto
    note arm = PersonNode_arm[OF h(1) h(3) h(4), of t0 down]
    show ?thesis
      unfolding arm
      using assms h(2,5) m
      by (auto simp: PersonNode_handleTouchMove_def PersonNode_elapse_def clearTimeout_def Let_def)
  qed
  have M: "\<exists>mn1 mtt1. MobilePersonNode_handleTouchStart mprops t0 (down # rest) mn mtt
               = Inr (mn1, mtt1, [PersonSelect (p_id (m_person mprops))])
             \<and> m_longPressTimer mn1 = Some (nextId mtt)
             \<and> pending mtt1 = [\<lparr>t_id = nextId mtt, t_due = t0 + 600, t_closure = p_id (m_person mprops)\<rparr>]
             \<and> MobilePersonNode_handleTouchMove mprops (mv # rest') mn1 mtt1
               = Inr (mn1\<lparr>m_longPressTimer := None, m_isDragging := True\<rparr>, mtt1\<lparr>pending := []\<rparr>, [])"
    if h: "\<not> m_isEditing mn" "\<not> m_isDragging mn" "\<not> connectionMode mprops"
          "\<forall>x\<in>set (pending mtt). m_longPressTimer mn = Some (t_id x)"
  proof -
    note arm = MobilePersonNode_arm[OF h(1) h(3) h(4), of t0 down rest]
    show ?thesis
      unfolding arm
      using assms h(1,2,3)
      by (auto simp: MobilePersonNode_handleTouchMove_def clearTimeout_def Let_def)
  qed
  from D M show ?thesis by blast
qed

text \<open>
  Ann's node is touched at (10, 10) at time 1000 and the finger moves to (25, 10): on the
  desktop a move at 1050 starts the drag and a move at 1300 does not, the timeout is gone
  in both cases and nothing runs at 1600; on the mobile node the move starts the drag.
\<close>

theorem long_press_cancellation_witness:
  "10 < \<bar>clientX (ex_touch 25 10) - clientX (ex_touch 10 10)\<bar>
   \<and> \<not> isEditing initial_node \<and> \<not> isDragging initial_node \<and> \<not> isConnecting initial_node
   \<and> interactionMode (ann_props Navigate) \<noteq> Connect
   \<and> pending (no_timers :: interaction_mode timer_table) = []
   \<and> PersonNode_handleTouchStart (ann_props Navigate) 1000 [ex_touch 10 10] initial_node no_timers
       = Inr (initial_node\<lparr>touchStartTime := 1000, dragStart := \<lparr>px = 10, py = 10\<rparr>, longPressTimer := Some 1\<rparr>,
              \<lparr>pending = [\<lparr>t_id = 1, t_due = 1500, t_closure = Navigate\<rparr>], nextId = 2\<rparr>, [Select])
   \<and> PersonNode_handleTouchMove (ann_props Navigate) 1050 [ex_touch 25 10]
         (initial_node\<lparr>touchStartTime := 1000, dragStart := \<lparr>px = 10, py = 10\<rparr>, longPressTimer := Some 1\<rparr>)
         \<lparr>pending = [\<lparr>t_id = 1, t_due = 1500, t_closure = Navigate\<rparr>], nextId = 2\<rparr>
       = Inr (initial_node\<lparr>touchStartTime := 1000, dragStart := \<lparr>px = 10, py = 10\<rparr>, isDragging := True\<rparr>,
              \<lparr>pending = [], nextId = 2\<rparr>, [])
   \<and> PersonNode_handleTouchMove (ann_props Navigate) 1300 [ex_touch 25 10]
         (initial_node\<lparr>touchStartTime := 1000, dragStart := \<lparr>px = 10, py = 10\<rparr>, longPressTimer := Some 1\<rparr>)
         \<lparr>pending = [\<lparr>t_id = 1, t_due = 1500, t_closure = Navigate\<rparr>], nextId = 2\<rparr>
       = Inr (initial_node\<lparr>touchStartTime := 1000, dragStart := \<lparr>px = 10, py = 10\<rparr>\<rparr>,
              \<lparr>pending = [], nextId = 2\<rparr>, [])
   \<and> PersonNode_elapse 1600 (initial_node\<lparr>touchStartTime := 1000, dragStart := \<lparr>px = 10, py = 10\<rparr>\<rparr>)
         \<lparr>pending = [], nextId = 2\<rparr>
       = (initial_node\<lparr>touchStartTime := 1000, dragStart := \<lparr>px = 10, py = 10\<rparr>\<rparr>, \<lparr>pending = [], nextId = 2\<rparr>)
   \<and> \<not> m_isEditing initial_mobile_node \<and> \<not> m_isDragging initial_mobile_node
   \<and> \<not> connectionMode \<lparr>m_person = ann, connectionMode = False\<rparr>
   \<and> pending (no_timers :: string timer_table) = []
   \<and> MobilePersonNode_handleTouchStart \<lparr>m_person = ann, connectionMode = False\<rparr> 1000 [ex_touch 10 10]
         initial_mobile_node no_timers
       = Inr (initial_mobile_node\<lparr>m_dragStart := \<lparr>px = 10, py = 10\<rparr>, m_longPressTimer := Some 1\<rparr>,
              \<lparr>pending = [\<lparr>t_id = 1, t_due = 1600, t_closure = ''A''\<rparr>], nextId = 2\<rparr>, [PersonSelect ''A''])
   \<and> MobilePersonNode_handleTouchMove \<lparr>m_person = ann, connectionMode = False\<rparr> [ex_touch 25 10]
         (initial_mobile_node\<lparr>m_dragStart := \<lparr>px = 10, py = 10\<rparr>, m_longPressTimer := Some 1\<rparr>)
         \<lparr>pending = [\<lparr>t_id = 1, t_due = 1600, t_closure = ''A''\<rparr>], nextId = 2\<rparr>
       = Inr (initial_mobile_node\<lparr>m_dragStart := \<lparr>px = 10, py = 10\<rparr>, m_isDragging := True\<rparr>,
              \<lparr>pending = [], nextId = 2\<rparr>, [])"
  using long_press_cancellation[of "ex_touch 25 10" "ex_touch 10 10" initial_node "ann_props Navigate"
          no_timers 1000 1050 initial_mobile_node "\<lparr>m_person = ann, connectionMode = False\<rparr>" no_timers "[]" "[]"]
  by (simp add: ex_touch_def initial_node_def ann_props_def no_timers_def ann_def initial_mobile_node_def
        PersonNode_handleTouchStart_def PersonNode_handleTouchMove_def PersonNode_elapse_def
        MobilePersonNode_handleTouchStart_def MobilePersonNode_handleTouchMove_def
        setTimeout_def clearTimeout_def)

text \<open>
  Claim C4 says that for touch input the transition to dragging is only permitted within
  about 200 ms after the touch-down. The mobile node has no such window: a move of 15
  pixels 300 ms after the touch-down makes Ann's node dragging.
\<close>

theorem late_drag_counterexample:
  "\<not> isl (mobile_run late_drag (mobile_start ex_tree))
   \<and> nodes (projr (mobile_run late_drag (mobile_start ex_tree))) ''A''
     = \<lparr>m_isEditing = False, m_isDragging = True, m_longPressTimer = None,
        m_dragStart = \<lparr>px = 10, py = 10\<rparr>\<rparr>"
  by (simp add: late_drag_def mobile_defs example_defs)

lemma longPress_stays:
  "m_isEditing (ns pid) \<Longrightarrow>
   m_isEditing (fold (\<lambda>t ns. ns(t_closure t := MobilePersonNode_longPress (ns (t_closure t)))) ts ns pid)"
proof (induction ts arbitrary: ns)
  case Nil
  then show ?case by simp
next
  case (Cons a ts)
  have "m_isEditing ((ns(t_closure a := MobilePersonNode_longPress (ns (t_closure a)))) pid)"
    using Cons.prems by (simp add: MobilePersonNode_longPress_def)
  from Cons.IH[of "ns(t_closure a := MobilePersonNode_longPress (ns (t_closure a)))", OF this]
  show ?case by (simp del: fun_upd_apply)
qed

lemma longPress_fires:
  "t \<in> set ts \<Longrightarrow> t_closure t = pid \<Longrightarrow>
   m_isEditing (fold (\<lambda>t ns. ns(t_closure t := MobilePersonNode_longPress (ns (t_closure t)))) ts ns pid)"
proof (induction ts arbitrary: ns)
  case Nil
  then show ?case by simp
next
  case (Cons a ts)
  show ?case
  proof (cases "a = t")
    case True
    have "m_isEditing ((ns(t_closure a := MobilePersonNode_longPress (ns (t_closure a)))) pid)"
      using True Cons.prems(2) by (simp add: MobilePersonNode_longPress_def)
    from longPress_stays[of "ns(t_closure a := MobilePersonNode_longPress (ns (t_closure a)))" pid ts, OF this]
    show ?thesis by (simp del: fun_upd_apply)
  next
    case False
    then show ?thesis using Cons by (simp del: fun_upd_apply)
  qed
qed

lemma mobile_hold:
  assumes p: "find (\<lambda>p. p_id p = pid) (people (familyTree (app s))) = Some p"
    and ne: "\<not> m_isEditing (nodes s pid)" and md: "mode (app s) \<noteq> MConnect"
    and pl: "st_place e = OnNode pid" and tc: "st_touches e = touch # rest"
    and lt: "st_now e + 600 \<le> later"
  shows "\<exists>s'. mobile_run [MTouchStart e, Elapse later] s = Inr s' \<and> m_isEditing (nodes s' pid)
           \<and> familyTree (app s') = familyTree (app s) \<and> mode (app s') = mode (app s)"
proof -
  have pid: "p_id p = pid" using p by (auto simp: find_Some_iff)
  define tt1 where "tt1 = (case m_longPressTimer (nodes s pid) of Some t \<Rightarrow> clearTimeout t (timer_table s)
                            | None \<Rightarrow> timer_table s)"
  define new where "new = \<lparr>t_id = nextId tt1, t_due = st_now e + 600, t_closure = pid\<rparr>"
  define s1 where "s1 = s\<lparr>nodes := (nodes s)(pid := (nodes s pid)
                              \<lparr>m_dragStart := \<lparr>px = clientX touch - p_x p, py = clientY touch - p_y p\<rparr>,
                               m_longPressTimer := Some (nextId tt1)\<rparr>),
                          timer_table := \<lparr>pending = pending tt1 @ [new], nextId = Suc (nextId tt1)\<rparr>,
                          app := (app s)\<lparr>selectedPersonId := Some pid\<rparr>,
                          canvas := (canvas s)\<lparr>mc_touchStartTime := st_now e\<rparr>\<rparr>"
  have step: "mobile_step (MTouchStart e) s = Inr s1"
    using p ne md pl tc pid
    by (simp add: s1_def new_def tt1_def touchable_def touch_node_def finish_touch_def canvas_touch_def
          MobilePersonNode_handleTouchStart_def MobileCanvas_handleTouchStart_def
          handlePersonSelect_def setTimeout_def Let_def)
  have due: "new \<in> set (filter (\<lambda>t. t_due t \<le> later) (pending (timer_table s1)))"
    using lt by (simp add: s1_def new_def)
  have cl: "t_closure new = pid" by (simp add: new_def)
  have "m_isEditing (fold (\<lambda>t ns. ns(t_closure t := MobilePersonNode_longPress (ns (t_closure t))))
           (filter (\<lambda>t. t_due t \<le> later) (pending (timer_table s1))) (nodes s1) pid)"
    by (rule longPress_fires[OF due cl])
  moreover have "familyTree (app s1) = familyTree (app s)" "mode (app s1) = mode (app s)"
    by (simp_all add: s1_def)
  ultimately show ?thesis using step by simp
qed

text \<open>
  Claim C8, amended. A touch on a node outside connect mode selects the node, updates no
  position and arms the long-press timeout, which does not run before its delay (500 ms on
  the desktop node, 600 ms on the mobile node) and runs once. When it runs, the desktop
  \<open>PersonNode\<close> enters editing exactly when the interaction mode of the touch-down was
  navigate; \<open>MobilePersonNode\<close> enters editing whenever the touch started outside connect
  mode, in navigate and in add mode.
\<close>

theorem long_press_edit_gating:
  "(\<not> isEditing n \<and> interactionMode props \<noteq> Connect
      \<and> (\<forall>x\<in>set (pending tt). longPressTimer n = Some (t_id x)) \<and> t0 + 500 \<le> later \<longrightarrow>
      (\<exists>n1 tt1. PersonNode_handleTouchStart props t0 [down] n tt = Inr (n1, tt1, [Select])
         \<and> \<not> isEditing n1
         \<and> (\<forall>early. early < t0 + 500 \<longrightarrow> PersonNode_elapse early n1 tt1 = (n1, tt1))
         \<and> PersonNode_elapse later n1 tt1
           = (n1\<lparr>isEditing := (interactionMode props = Navigate)\<rparr>, tt1\<lparr>pending := []\<rparr>)
         \<and> (\<forall>t n2. PersonNode_elapse t n2 (tt1\<lparr>pending := []\<rparr>) = (n2, tt1\<lparr>pending := []\<rparr>))))
   \<and> (find (\<lambda>p. p_id p = pid) (people (familyTree (app s))) = Some p
      \<and> \<not> m_isEditing (nodes s pid) \<and> mode (app s) \<noteq> MConnect
      \<and> st_place e = OnNode pid \<and> st_touches e = touch # rest \<and> st_now e + 600 \<le> mlater \<longrightarrow>
      (\<exists>s'. mobile_run [MTouchStart e, Elapse mlater] s = Inr s' \<and> m_isEditing (nodes s' pid)
         \<and> familyTree (app s') = familyTree (app s) \<and> mode (app s') = mode (app s)))"
proof -
  have D: "\<exists>n1 tt1. PersonNode_handleTouchStart props t0 [down] n tt = Inr (n1, tt1, [Select])
         \<and> \<not> isEditing n1
         \<and> (\<forall>early. early < t0 + 500 \<longrightarrow> PersonNode_elapse early n1 tt1 = (n1, tt1))
         \<and> PersonNode_elapse later n1 tt1
           = (n1\<lparr>isEditing := (interactionMode props = Navigate)\<rparr>, tt1\<lparr>pending := []\<rparr>)
         \<and> (\<forall>t n2. PersonNode_elapse t n2 (tt1\<lparr>pending := []\<rparr>) = (n2, tt1\<lparr>pending := []\<rparr>))"
    if h: "\<not> isEditing n" "interactionMode props \<noteq> Connect"
          "\<forall>x\<in>set (pending tt). longPressTimer n = Some (t_id x)" "t0 + 500 \<le> later"
  proof -
    note arm = PersonNode_arm[OF h(1) h(2) h(3), of t0 down]
    show ?thesis
      unfolding arm
      using h(1,4)
      by (auto simp: PersonNode_elapse_def PersonNode_longPress_def)
  qed
  from D mobile_hold show ?thesis by blast
qed

text \<open>
  A press on Ann's node held from 1000: the desktop node is editing at 1500 when the mode
  was navigate and not when it was add-person; the mobile node is editing at 1600, and the
  tree is as before.
\<close>

theorem long_press_edit_gating_witness:
  "\<not> isEditing initial_node \<and> interactionMode (ann_props Navigate) \<noteq> Connect
   \<and> pending (no_timers :: interaction_mode timer_table) = [] \<and> (1000::int) + 500 \<le> 1500
   \<and> PersonNode_handleTouchStart (ann_props Navigate) 1000 [ex_touch 10 10] initial_node no_timers
       = Inr (initial_node\<lparr>touchStartTime := 1000, dragStart := \<lparr>px = 10, py = 10\<rparr>, longPressTimer := Some 1\<rparr>,
              \<lparr>pending = [\<lparr>t_id = 1, t_due = 1500, t_closure = Navigate\<rparr>], nextId = 2\<rparr>, [Select])
   \<and> PersonNode_elapse 1500
         (initial_node\<lparr>touchStartTime := 1000, dragStart := \<lparr>px = 10, py = 10\<rparr>, longPressTimer := Some 1\<rparr>)
         \<lparr>pending = [\<lparr>t_id = 1, t_due = 1500, t_closure = Navigate\<rparr>], nextId = 2\<rparr>
       = (initial_node\<lparr>touchStartTime := 1000, dragStart := \<lparr>px = 10, py = 10\<rparr>, longPressTimer := Some 1,
                       isEditing := True\<rparr>,
          \<lparr>pending = [], nextId = 2\<rparr>)
   \<and> PersonNode_elapse 1500
         (initial_node\<lparr>touchStartTime := 1000, dragStart := \<lparr>px = 10, py = 10\<rparr>, longPressTimer := Some 1\<rparr>)
         \<lparr>pending = [\<lparr>t_id = 1, t_due = 1500, t_closure = AddPerson\<rparr>], nextId = 2\<rparr>
       = (initial_node\<lparr>touchStartTime := 1000, dragStart := \<lparr>px = 10, py = 10\<rparr>, longPressTimer := Some 1\<rparr>,
          \<lparr>pending = [], nextId = 2\<rparr>)
   \<and> find (\<lambda>p. p_id p = ''A'') (people (familyTree (app (mobile_start ex_tree)))) = Some ann
   \<and> \<not> m_isEditing (nodes (mobile_start ex_tree) ''A'') \<and> mode (app (mobile_start ex_tree)) \<noteq> MConnect
   \<and> st_place (finger_at (OnNode ''A'') 1000 ''1000'' 10 10) = OnNode ''A''
   \<and> st_touches (finger_at (OnNode ''A'') 1000 ''1000'' 10 10) = [ex_touch 10 10]
   \<and> st_now (finger_at (OnNode ''A'') 1000 ''1000'' 10 10) + 600 \<le> 1600
   \<and> \<not> isl (mobile_run [MTouchStart (finger_at (OnNode ''A'') 1000 ''1000'' 10 10), Elapse 1600]
              (mobile_start ex_tree))
   \<and> m_isEditing (nodes (projr (mobile_run [MTouchStart (finger_at (OnNode ''A'') 1000 ''1000'' 10 10), Elapse 1600]
              (mobile_start ex_tree))) ''A'')
   \<and> familyTree (app (projr (mobile_run [MTouchStart (finger_at (OnNode ''A'') 1000 ''1000'' 10 10), Elapse 1600]
              (mobile_start ex_tree)))) = ex_tree"
  using long_press_edit_gating[of initial_node "ann_props Navigate" no_timers 1000 1500 "ex_touch 10 10"
          "''A''" "mobile_start ex_tree" ann "finger_at (OnNode ''A'') 1000 ''1000'' 10 10" "ex_touch 10 10" "[]" 1600]
  by (simp add: initial_node_def ann_props_def no_timers_def
        PersonNode_handleTouchStart_def PersonNode_elapse_def PersonNode_longPress_def
        mobile_defs example_defs)

text \<open>
  Claim C8 says that the long press enters editing only when the mode is navigate. In the
  mobile application a press held for 600 ms in add mode enters editing as well.
\<close>

theorem hold_in_add_mode_counterexample:
  "\<not> isl (mobile_run hold_in_add_mode (mobile_start ex_tree))
   \<and> mode (app (projr (mobile_run hold_in_add_mode (mobile_start ex_tree)))) = MAdd
   \<and> m_isEditing (nodes (projr (mobile_run hold_in_add_mode (mobile_start ex_tree))) ''A'')"
  by (simp add: hold_in_add_mode_def mobile_defs example_defs)

lemma mobile_emit_relationships:
  assumes "mobile_emit c newId em a = Inr a'"
  shows "\<forall>r\<in>set (relationships (familyTree a')).
           r \<in> set (relationships (familyTree a)) \<or> r_from r \<noteq> r_to r"
  using assms
  by (cases em)
     (auto simp: handleConnectionStart_def handlePersonSelect_def addRelationship_def updatePerson_def
        handleCanvasTouch_def Let_def split: if_splits option.splits)

lemma mobile_emit_all_relationships:
  assumes "mobile_emit_all c newId ems a = Inr a'"
  shows "\<forall>r\<in>set (relationships (familyTree a')).
           r \<in> set (relationships (familyTree a)) \<or> r_from r \<noteq> r_to r"
  using assms
proof (induction ems arbitrary: a)
  case Nil
  then show ?case by simp
next
  case (Cons em ems)
  then obtain a1 where a1: "mobile_emit c newId em a = Inr a1" "mobile_emit_all c newId ems a1 = Inr a'"
    by (auto split: sum.splits)
  from mobile_emit_relationships[OF a1(1)] Cons.IH[OF a1(2)] show ?case by blast
qed

lemma finish_touch_relationships:
  assumes "finish_touch e s np cp = Inr s'"
  shows "\<forall>r\<in>set (relationships (familyTree (app s'))).
           r \<in> set (relationships (familyTree (app s))) \<or> r_from r \<noteq> r_to r"
proof -
  from assms obtain s1 ems1 cv ems2 a where
    "mobile_emit_all (app s) (st_nowString e) (ems1 @ ems2) (app s) = Inr a" "s' = s1\<lparr>app := a, canvas := cv\<rparr>"
    by (auto simp: finish_touch_def split: sum.splits prod.splits)
  then show ?thesis using mobile_emit_all_relationships by fastforce
qed

lemma mobile_step_relationships:
  assumes "mobile_step e s = Inr s'"
  shows "\<forall>r\<in>set (relationships (familyTree (app s'))).
           r \<in> set (relationships (familyTree (app s))) \<or> r_from r \<noteq> r_to r"
proof (cases e)
  case (MTouchStart t)
  then show ?thesis using assms finish_touch_relationships by (auto split: if_splits)
next
  case (MTouchMove t)
  then show ?thesis using assms finish_touch_relationships by (auto split: if_splits)
next
  case (MTouchEnd t)
  then show ?thesis using assms finish_touch_relationships by (auto split: if_splits)
qed (use assms in \<open>auto simp: setMode_def deletePerson_def deleteRelationship_def split: if_splits\<close>)

lemma mobile_run_no_self_loop:
  assumes "mobile_run es s = Inr s'"
    and "\<forall>r\<in>set (relationships (familyTree (app s))). r_from r \<noteq> r_to r"
  shows "\<forall>r\<in>set (relationships (familyTree (app s'))). r_from r \<noteq> r_to r"
  using assms
proof (induction es arbitrary: s)
  case Nil
  then show ?case by simp
next
  case (Cons e es)
  then obtain s1 where s1: "mobile_step e s = Inr s1" "mobile_run es s1 = Inr s'"
    by (auto split: sum.splits)
  from mobile_step_relationships[OF s1(1)] Cons.prems(2)
  have "\<forall>r\<in>set (relationships (familyTree (app s1))). r_from r \<noteq> r_to r" by blast
  from Cons.IH[OF s1(2) this] show ?case .
qed

text \<open>
  Claim C5. \<open>handlePersonSelect\<close>, the only caller of \<open>addRelationship\<close>, adds at most
  one relationship, and only in connect mode from a draft whose source differs from the
  selected person: on the source itself it only selects. So every relationship that an
  event of the mobile application adds joins two different ids, and no sequence of events
  puts a relationship from a person to itself into a tree that had none. On the desktop
  node, the release of a connection drag calls the select callback exactly when the hit
  test finds a node of another person under the finger.
\<close>

theorem connection_self_loop_exclusion:
  "(handlePersonSelect c newId personId s = Inr s' \<longrightarrow>
      relationships (familyTree s') = relationships (familyTree s)
      \<or> (\<exists>src. mode c = MConnect \<and> connectionStart c = Some src \<and> cs_personId src \<noteq> personId
            \<and> relationships (familyTree s')
               = relationships (familyTree s) @
                 [\<lparr>r_id = newId, r_type = connectionType c, r_from = cs_personId src, r_to = personId\<rparr>]))
   \<and> (connectionStart c = Some start \<and> cs_personId start = personId \<longrightarrow>
        handlePersonSelect c newId personId s = Inr (s\<lparr>selectedPersonId := Some personId\<rparr>))
   \<and> (mobile_step e sys = Inr sys' \<longrightarrow>
        (\<forall>r\<in>set (relationships (familyTree (app sys'))).
           r \<in> set (relationships (familyTree (app sys))) \<or> r_from r \<noteq> r_to r))
   \<and> (mobile_run es sys = Inr sys''
        \<and> (\<forall>r\<in>set (relationships (familyTree (app sys))). r_from r \<noteq> r_to r) \<longrightarrow>
        (\<forall>r\<in>set (relationships (familyTree (app sys''))). r_from r \<noteq> r_to r))
   \<and> (isConnecting n \<and> \<not> isDragging n \<longrightarrow>
        (Select \<in> set (snd (snd (PersonNode_handleTouchEnd props now changed hitTest n tt)))
         \<longleftrightarrow> (\<exists>touch rest hit. changed = touch # rest
                \<and> hitTest (clientX touch) (clientY touch) = Some hit \<and> hit \<noteq> p_id (person props))))"
proof -
  have A: "relationships (familyTree s') = relationships (familyTree s)
      \<or> (\<exists>src. mode c = MConnect \<and> connectionStart c = Some src \<and> cs_personId src \<noteq> personId
            \<and> relationships (familyTree s')
               = relationships (familyTree s) @
                 [\<lparr>r_id = newId, r_type = connectionType c, r_from = cs_personId src, r_to = personId\<rparr>])"
    if "handlePersonSelect c newId personId s = Inr s'"
    using that
    by (auto simp: handlePersonSelect_def addRelationship_def Let_def split: if_splits option.splits)
  have B: "handlePersonSelect c newId personId s = Inr (s\<lparr>selectedPersonId := Some personId\<rparr>)"
    if "connectionStart c = Some start" "cs_personId start = personId"
    using that by (simp add: handlePersonSelect_def)
  have C: "Select \<in> set (snd (snd (PersonNode_handleTouchEnd props now changed hitTest n tt)))
         \<longleftrightarrow> (\<exists>touch rest hit. changed = touch # rest
                \<and> hitTest (clientX touch) (clientY touch) = Some hit \<and> hit \<noteq> p_id (person props))"
    if "isConnecting n" "\<not> isDragging n"
  proof (cases changed)
    case Nil
    then show ?thesis using that
      by (simp add: PersonNode_handleTouchEnd_def Let_def split: option.splits prod.splits)
  next
    case (Cons touch rest)
    then show ?thesis using that
      by (cases "hitTest (clientX touch) (clientY touch)")
         (simp_all add: PersonNode_handleTouchEnd_def Let_def split: option.splits prod.splits)
  qed
  from A B C mobile_step_relationships[of e sys sys'] mobile_run_no_self_loop[of es sys sys'']
  show ?thesis by blast
qed

text \<open>
  With a draft that started on Ann, selecting Ann adds nothing and selecting Bob adds the
  relationship from Ann to Bob; so do the touches of \<open>connect_ann_ann\<close> and
  \<open>connect_ann_bob\<close>; a drag released on Ann's own node only ends the drag.
\<close>

theorem connection_self_loop_exclusion_witness:
  "handlePersonSelect ex_drafting ''1'' ''A'' ex_drafting = Inr (ex_drafting\<lparr>selectedPersonId := Some ''A''\<rparr>)
   \<and> handlePersonSelect ex_drafting ''1'' ''B'' ex_drafting
       = Inr (ex_drafting
               \<lparr>familyTree :=
                  \<lparr>people = [ann, bob],
                   relationships = [\<lparr>r_id = ''1'', r_type = Parent, r_from = ''A'', r_to = ''B''\<rparr>]\<rparr>,
                connectionStart := None, selectedPersonId := Some ''B''\<rparr>)
   \<and> relationships (familyTree (app (mobile_start ex_tree))) = []
   \<and> \<not> isl (mobile_run connect_ann_ann (mobile_start ex_tree))
   \<and> relationships (familyTree (app (projr (mobile_run connect_ann_ann (mobile_start ex_tree))))) = []
   \<and> \<not> isl (mobile_run connect_ann_bob (mobile_start ex_tree))
   \<and> relationships (familyTree (app (projr (mobile_run connect_ann_bob (mobile_start ex_tree)))))
       = [\<lparr>r_id = ''2000'', r_type = Parent, r_from = ''A'', r_to = ''B''\<rparr>]
   \<and> isConnecting ex_connecting \<and> \<not> isDragging ex_connecting
   \<and> PersonNode_handleTouchEnd (ann_props Connect) 1300 [ex_touch 80 60] (hit_always ''A'') ex_connecting no_timers
       = (ex_connecting\<lparr>isConnecting := False\<rparr>, no_timers, [ConnectionDragEnd])
   \<and> PersonNode_handleTouchEnd (ann_props Connect) 1300 [ex_touch 280 60] (hit_always ''B'') ex_connecting no_timers
       = (ex_connecting\<lparr>isConnecting := False\<rparr>, no_timers, [Select, ConnectionDragEnd])"
  using connection_self_loop_exclusion[of ex_drafting "''1''" "''A''" ex_drafting
          "ex_drafting\<lparr>selectedPersonId := Some ''A''\<rparr>" "\<lparr>cs_personId = ''A'', cs_x = 60, cs_y = 30\<rparr>"
          "SetMode MConnect" "mobile_start ex_tree"
          "(mobile_start ex_tree)\<lparr>app := (app (mobile_start ex_tree))\<lparr>mode := MConnect\<rparr>\<rparr>"
          connect_ann_ann "projr (mobile_run connect_ann_ann (mobile_start ex_tree))"
          ex_connecting "ann_props Connect" 1300 "[ex_touch 80 60]" "hit_always ''A''" no_timers]
  by (simp add: ex_drafting_def ex_connecting_def initial_node_def ann_props_def no_timers_def hit_always_def
        PersonNode_handleTouchEnd_def connect_ann_ann_def connect_ann_bob_def mobile_defs example_defs)

text \<open>
  What \<open>deletePerson i\<close> does: it removes the people with id \<open>i\<close> and the relationships
  whose source or target is \<open>i\<close>, and keeps all the others, in their order. The tree it
  stores has no person and no relationship that references \<open>i\<close>, and if every relationship
  referenced stored people before, it does so afterwards. The delete button of an editor
  does the same to the application state.
\<close>

lemma deletePerson_cascade:
  "people (familyTree (deletePerson i s)) = filter (\<lambda>p. p_id p \<noteq> i) (people (familyTree s))
   \<and> relationships (familyTree (deletePerson i s))
     = filter (\<lambda>r. r_from r \<noteq> i \<and> r_to r \<noteq> i) (relationships (familyTree s))
   \<and> (\<forall>p\<in>set (people (familyTree (deletePerson i s))). p_id p \<noteq> i)
   \<and> (\<forall>r\<in>set (relationships (familyTree (deletePerson i s))). r_from r \<noteq> i \<and> r_to r \<noteq> i)
   \<and> ((\<forall>r\<in>set (relationships (familyTree s)).
          r_from r \<in> p_id ` set (people (familyTree s)) \<and> r_to r \<in> p_id ` set (people (familyTree s)))
        \<longrightarrow> (\<forall>r\<in>set (relationships (familyTree (deletePerson i s))).
               r_from r \<in> p_id ` set (people (familyTree (deletePerson i s)))
               \<and> r_to r \<in> p_id ` set (people (familyTree (deletePerson i s)))))
   \<and> (find (\<lambda>p. p_id p = i) (people (familyTree (app sys))) \<noteq> None \<and> m_isEditing (nodes sys i) \<longrightarrow>
        (\<exists>sys'. mobile_step (EditorDelete i) sys = Inr sys' \<and> app sys' = deletePerson i (app sys)
           \<and> canvas sys' = canvas sys
           \<and> (\<forall>p\<in>set (people (familyTree (app sys'))). p_id p \<noteq> i)
           \<and> (\<forall>r\<in>set (relationships (familyTree (app sys'))). r_from r \<noteq> i \<and> r_to r \<noteq> i)))"
proof -
  have P: "people (familyTree (deletePerson i a)) = filter (\<lambda>p. p_id p \<noteq> i) (people (familyTree a))" for a
    by (simp add: deletePerson_def)
  have R: "relationships (familyTree (deletePerson i a))
           = filter (\<lambda>r. r_from r \<noteq> i \<and> r_to r \<noteq> i) (relationships (familyTree a))" for a
    by (simp add: deletePerson_def)
  have gone: "(\<forall>p\<in>set (people (familyTree (deletePerson i a))). p_id p \<noteq> i)
              \<and> (\<forall>r\<in>set (relationships (familyTree (deletePerson i a))). r_from r \<noteq> i \<and> r_to r \<noteq> i)" for a
    unfolding P R by simp
  have wf: "\<forall>r\<in>set (relationships (familyTree (deletePerson i s))).
               r_from r \<in> p_id ` set (people (familyTree (deletePerson i s)))
               \<and> r_to r \<in> p_id ` set (people (familyTree (deletePerson i s)))"
    if h: "\<forall>r\<in>set (relationships (familyTree s)).
          r_from r \<in> p_id ` set (people (familyTree s)) \<and> r_to r \<in> p_id ` set (people (familyTree s))"
  proof
    fix r assume r: "r \<in> set (relationships (familyTree (deletePerson i s)))"
    then have r0: "r \<in> set (relationships (familyTree s))" "r_from r \<noteq> i" "r_to r \<noteq> i"
      unfolding R by simp_all
    from h r0(1) obtain p q where pq: "p \<in> set (people (familyTree s))" "p_id p = r_from r"
        "q \<in> set (people (familyTree s))" "p_id q = r_to r"
      by (metis (no_types, lifting) imageE)
    have "p \<in> set (people (familyTree (deletePerson i s)))" "q \<in> set (people (familyTree (deletePerson i s)))"
      unfolding P using pq r0 by simp_all
    then show "r_from r \<in> p_id ` set (people (familyTree (deletePerson i s)))
               \<and> r_to r \<in> p_id ` set (people (familyTree (deletePerson i s)))"
      using pq(2,4) by (metis imageI)
  qed
  have ev: "\<exists>sys'. mobile_step (EditorDelete i) sys = Inr sys' \<and> app sys' = deletePerson i (app sys)
           \<and> canvas sys' = canvas sys
           \<and> (\<forall>p\<in>set (people (familyTree (app sys'))). p_id p \<noteq> i)
           \<and> (\<forall>r\<in>set (relationships (familyTree (app sys'))). r_from r \<noteq> i \<and> r_to r \<noteq> i)"
    if "find (\<lambda>p. p_id p = i) (people (familyTree (app sys))) \<noteq> None" "m_isEditing (nodes sys i)"
    using that gone[of "app sys"] by simp
  from P[of s] R[of s] gone[of s] wf ev show ?thesis by blast
qed

text \<open>
  Deleting Ann from the tree of Ann, Bob and Carol leaves Bob, Carol and the relationship
  from Bob to Carol, by the function and by the delete button of Ann's editor.
\<close>

lemma deletePerson_cascade_example:
  "familyTree (deletePerson ''A'' (initial_mobile_app\<lparr>familyTree := ex_family\<rparr>))
     = \<lparr>people = [bob, carol],
        relationships = [\<lparr>r_id = ''r2'', r_type = Parent, r_from = ''B'', r_to = ''C''\<rparr>]\<rparr>
   \<and> r_from \<lparr>r_id = ''r1'', r_type = Parent, r_from = ''A'', r_to = ''B''\<rparr> \<in> p_id ` set (people ex_family)
   \<and> r_to \<lparr>r_id = ''r1'', r_type = Parent, r_from = ''A'', r_to = ''B''\<rparr> \<in> p_id ` set (people ex_family)
   \<and> r_from \<lparr>r_id = ''r2'', r_type = Parent, r_from = ''B'', r_to = ''C''\<rparr> \<in> p_id ` set (people ex_family)
   \<and> r_to \<lparr>r_id = ''r2'', r_type = Parent, r_from = ''B'', r_to = ''C''\<rparr> \<in> p_id ` set (people ex_family)
   \<and> r_from \<lparr>r_id = ''r2'', r_type = Parent, r_from = ''B'', r_to = ''C''\<rparr> \<in> p_id ` set [bob, carol]
   \<and> r_to \<lparr>r_id = ''r2'', r_type = Parent, r_from = ''B'', r_to = ''C''\<rparr> \<in> p_id ` set [bob, carol]
   \<and> \<not> isl (mobile_run edit_ann (mobile_start ex_family))
   \<and> find (\<lambda>p. p_id p = ''A'')
        (people (familyTree (app (projr (mobile_run edit_ann (mobile_start ex_family)))))) = Some ann
   \<and> m_isEditing (nodes (projr (mobile_run edit_ann (mobile_start ex_family))) ''A'')
   \<and> \<not> isl (mobile_step (EditorDelete ''A'') (projr (mobile_run edit_ann (mobile_start ex_family))))
   \<and> familyTree (app (projr (mobile_step (EditorDelete ''A'')
                                (projr (mobile_run edit_ann (mobile_start ex_family))))))
     = \<lparr>people = [bob, carol],
        relationships = [\<lparr>r_id = ''r2'', r_type = Parent, r_from = ''B'', r_to = ''C''\<rparr>]\<rparr>"
  using deletePerson_cascade[of "''A''" "initial_mobile_app\<lparr>familyTree := ex_family\<rparr>"
          "projr (mobile_run edit_ann (mobile_start ex_family))"]
  by (simp add: edit_ann_def mobile_defs example_defs)

text \<open>
  References to stored people, across the events of the mobile application. Let every
  relationship join ids of stored people, and let the connection draft, if there is one,
  have started on a stored person. Every event keeps both, but for one: the deletion of the
  person on whom the pending draft started.
\<close>

lemma updatePerson_ids:
  "p_id ` set (people (familyTree (updatePerson u a))) = p_id ` set (people (familyTree a))"
proof -
  have "map p_id (map (\<lambda>p. if p_id p = p_id u then u else p) ps) = map p_id ps" for ps
    by (induction ps) auto
  then have "set (map p_id (map (\<lambda>p. if p_id p = p_id u then u else p) (people (familyTree a))))
             = set (map p_id (people (familyTree a)))" by simp
  then show ?thesis unfolding updatePerson_def by (simp only: set_map) simp
qed

lemma mobile_emit_references:
  assumes em: "mobile_emit c newId em a = Inr a'"
    and pa: "p_id ` set (people (familyTree a)) = I"
    and ra: "\<forall>r\<in>set (relationships (familyTree a)). r_from r \<in> I \<and> r_to r \<in> I"
    and da: "\<forall>cs. connectionStart a = Some cs \<longrightarrow> cs_personId cs \<in> I"
    and dc: "\<forall>cs. connectionStart c = Some cs \<longrightarrow> cs_personId cs \<in> I"
    and e1: "\<forall>pid x y. em = ConnectionStart pid x y \<longrightarrow> pid \<in> I"
    and e2: "\<forall>pid. em = PersonSelect pid \<longrightarrow> pid \<in> I"
  shows "p_id ` set (people (familyTree a')) = I
         \<and> (\<forall>r\<in>set (relationships (familyTree a')). r_from r \<in> I \<and> r_to r \<in> I)
         \<and> (\<forall>cs. connectionStart a' = Some cs \<longrightarrow> cs_personId cs \<in> I)"
proof (cases em)
  case (ConnectionStart pid x y)
  then have "pid \<in> I" using e1 by simp
  moreover have "a' = handleConnectionStart c pid x y a" using em ConnectionStart by simp
  ultimately show ?thesis using pa ra da
    by (simp add: handleConnectionStart_def)
next
  case (PersonSelect pid)
  then have pid: "pid \<in> I" using e2 by simp
  have sel: "handlePersonSelect c newId pid a = Inr a'" using em PersonSelect by simp
  show ?thesis
  proof (cases "mode c = MConnect")
    case False
    then have "a' = a\<lparr>selectedPersonId := Some pid\<rparr>" using sel by (simp add: handlePersonSelect_def)
    then show ?thesis using pa ra da by simp
  next
    case True
    show ?thesis
    proof (cases "connectionStart c")
      case None
      then obtain x y where "a' = a\<lparr>connectionStart := Some \<lparr>cs_personId = pid, cs_x = x, cs_y = y\<rparr>,
                                      selectedPersonId := Some pid\<rparr>"
        using sel True by (auto simp: handlePersonSelect_def split: option.splits)
      then show ?thesis using pa ra da pid by simp
    next
      case (Some start)
      then have src: "cs_personId start \<in> I" using dc by simp
      show ?thesis
      proof (cases "cs_personId start = pid")
        case True
        then have "a' = a\<lparr>selectedPersonId := Some pid\<rparr>" using sel Some \<open>mode c = MConnect\<close>
          by (simp add: handlePersonSelect_def)
        then show ?thesis using pa ra da by simp
      next
        case False
        then have "a' = (addRelationship newId (cs_personId start) pid (connectionType c) a)
                          \<lparr>connectionStart := None, selectedPersonId := Some pid\<rparr>"
          using sel Some \<open>mode c = MConnect\<close> by (simp add: handlePersonSelect_def)
        then show ?thesis using pa ra src pid by (simp add: addRelationship_def)
      qed
    qed
  qed
next
  case (MPersonUpdate u)
  then have a': "a' = updatePerson u a" using em by simp
  have "relationships (familyTree a') = relationships (familyTree a)" "connectionStart a' = connectionStart a"
    unfolding a' by (simp_all add: updatePerson_def)
  then show ?thesis using pa ra da updatePerson_ids[of u a] unfolding a' by simp
next
  case (CanvasTouch x y)
  then have "a' = handleCanvasTouch c x y a" using em by simp
  then show ?thesis using pa ra da by (simp add: handleCanvasTouch_def)
next
  case (OffsetChange p)
  then have "a' = a\<lparr>offset := p\<rparr>" using em by simp
  then show ?thesis using pa ra da by simp
qed

lemma mobile_emit_all_references:
  assumes "mobile_emit_all c newId ems a = Inr a'"
    and "p_id ` set (people (familyTree a)) = I"
    and "\<forall>r\<in>set (relationships (familyTree a)). r_from r \<in> I \<and> r_to r \<in> I"
    and "\<forall>cs. connectionStart a = Some cs \<longrightarrow> cs_personId cs \<in> I"
    and "\<forall>cs. connectionStart c = Some cs \<longrightarrow> cs_personId cs \<in> I"
    and "\<forall>pid x y. ConnectionStart pid x y \<in> set ems \<longrightarrow> pid \<in> I"
    and "\<forall>pid. PersonSelect pid \<in> set ems \<longrightarrow> pid \<in> I"
  shows "p_id ` set (people (familyTree a')) = I
         \<and> (\<forall>r\<in>set (relationships (familyTree a')). r_from r \<in> I \<and> r_to r \<in> I)
         \<and> (\<forall>cs. connectionStart a' = Some cs \<longrightarrow> cs_personId cs \<in> I)"
  using assms
proof (induction ems arbitrary: a)
  case Nil
  then show ?case by simp
next
  case (Cons em ems)
  from Cons.prems(1) obtain a1 where a1: "mobile_emit c newId em a = Inr a1"
      "mobile_emit_all c newId ems a1 = Inr a'"
    by (auto split: sum.splits)
  have step: "p_id ` set (people (familyTree a1)) = I
         \<and> (\<forall>r\<in>set (relationships (familyTree a1)). r_from r \<in> I \<and> r_to r \<in> I)
         \<and> (\<forall>cs. connectionStart a1 = Some cs \<longrightarrow> cs_personId cs \<in> I)"
    by (rule mobile_emit_references[OF a1(1) Cons.prems(2,3,4,5)]) (use Cons.prems(6,7) in auto)
  show ?case
    by (rule Cons.IH[OF a1(2)]) (use step Cons.prems(5,6,7) in auto)
qed


lemma find_SomeD: "find P xs = Some x \<Longrightarrow> x \<in> set xs \<and> P x"
  by (induction xs) (auto split: if_splits)

lemma touch_node_emissions:
  assumes tn: "touch_node h place s = Inr (s1, ems)"
    and h: "\<And>props n tt n' tt' es. h props n tt = Inr (n', tt', es) \<Longrightarrow>
              (\<forall>pid x y. ConnectionStart pid x y \<in> set es \<longrightarrow> pid = p_id (m_person props))
              \<and> (\<forall>pid. PersonSelect pid \<in> set es \<longrightarrow> pid = p_id (m_person props))"
  shows "(\<forall>pid x y. ConnectionStart pid x y \<in> set ems \<longrightarrow> pid \<in> p_id ` set (people (familyTree (app s))))
         \<and> (\<forall>pid. PersonSelect pid \<in> set ems \<longrightarrow> pid \<in> p_id ` set (people (familyTree (app s))))"
proof (cases place)
  case OnBackground
  then show ?thesis using tn by (simp add: touch_node_def)
next
  case (OnNode pid)
  show ?thesis
  proof (cases "find (\<lambda>p. p_id p = pid) (people (familyTree (app s)))")
    case None
    then show ?thesis using tn OnNode by (simp add: touch_node_def)
  next
    case (Some p)
    then have p: "p \<in> set (people (familyTree (app s)))" using find_SomeD by fastforce
    from tn OnNode Some obtain n' tt' where
      "h \<lparr>m_person = p, connectionMode = (mode (app s) = MConnect)\<rparr> (nodes s pid) (timer_table s)
         = Inr (n', tt', ems)"
      by (auto simp: touch_node_def split: sum.splits)
    from h[OF this] p show ?thesis by auto
  qed
qed

lemma finish_touch_references:
  assumes ft: "finish_touch e s (touch_node h place s) cp = Inr s'"
    and h: "\<And>props n tt n' tt' es. h props n tt = Inr (n', tt', es) \<Longrightarrow>
              (\<forall>pid x y. ConnectionStart pid x y \<in> set es \<longrightarrow> pid = p_id (m_person props))
              \<and> (\<forall>pid. PersonSelect pid \<in> set es \<longrightarrow> pid = p_id (m_person props))"
    and cp: "\<And>cv es. cp = Inr (cv, es) \<Longrightarrow>
              (\<forall>pid x y. ConnectionStart pid x y \<notin> set es) \<and> (\<forall>pid. PersonSelect pid \<notin> set es)"
    and rel: "\<forall>r\<in>set (relationships (familyTree (app s))).
                r_from r \<in> p_id ` set (people (familyTree (app s)))
                \<and> r_to r \<in> p_id ` set (people (familyTree (app s)))"
    and draft: "\<forall>cs. connectionStart (app s) = Some cs \<longrightarrow>
                  cs_personId cs \<in> p_id ` set (people (familyTree (app s)))"
  shows "(\<forall>r\<in>set (relationships (familyTree (app s'))).
            r_from r \<in> p_id ` set (people (familyTree (app s')))
            \<and> r_to r \<in> p_id ` set (people (familyTree (app s'))))
         \<and> (\<forall>cs. connectionStart (app s') = Some cs \<longrightarrow>
               cs_personId cs \<in> p_id ` set (people (familyTree (app s'))))"
proof -
  from ft obtain s1 ems1 cv ems2 a where
    tn: "touch_node h place s = Inr (s1, ems1)" and c: "cp = Inr (cv, ems2)"
    and ea: "mobile_emit_all (app s) (st_nowString e) (ems1 @ ems2) (app s) = Inr a"
    and s': "s' = s1\<lparr>app := a, canvas := cv\<rparr>"
    by (auto simp: finish_touch_def split: sum.splits prod.splits)
  note n = touch_node_emissions[OF tn h]
  note k = cp[OF c]
  have "p_id ` set (people (familyTree a)) = p_id ` set (people (familyTree (app s)))
         \<and> (\<forall>r\<in>set (relationships (familyTree a)).
               r_from r \<in> p_id ` set (people (familyTree (app s)))
               \<and> r_to r \<in> p_id ` set (people (familyTree (app s))))
         \<and> (\<forall>cs. connectionStart a = Some cs \<longrightarrow> cs_personId cs \<in> p_id ` set (people (familyTree (app s))))"
    by (rule mobile_emit_all_references[OF ea refl rel draft draft]) (use n k in auto)
  then show ?thesis unfolding s' by simp
qed

lemma node_start_emissions:
  "MobilePersonNode_handleTouchStart props now ts n tt = Inr (n', tt', es) \<Longrightarrow>
     (\<forall>pid x y. ConnectionStart pid x y \<in> set es \<longrightarrow> pid = p_id (m_person props))
     \<and> (\<forall>pid. PersonSelect pid \<in> set es \<longrightarrow> pid = p_id (m_person props))"
  by (auto simp: MobilePersonNode_handleTouchStart_def Let_def setTimeout_def
           split: if_splits list.splits option.splits)

lemma node_move_emissions:
  "MobilePersonNode_handleTouchMove props ts n tt = Inr (n', tt', es) \<Longrightarrow>
     (\<forall>pid x y. ConnectionStart pid x y \<in> set es \<longrightarrow> pid = p_id (m_person props))
     \<and> (\<forall>pid. PersonSelect pid \<in> set es \<longrightarrow> pid = p_id (m_person props))"
  by (auto simp: MobilePersonNode_handleTouchMove_def Let_def
           split: if_splits list.splits option.splits prod.splits)

lemma canvas_start_emissions:
  "MobileCanvas_handleTouchStart c e cv = Inr (cv', es) \<Longrightarrow>
     (\<forall>pid x y. ConnectionStart pid x y \<notin> set es) \<and> (\<forall>pid. PersonSelect pid \<notin> set es)"
  by (auto simp: MobileCanvas_handleTouchStart_def Let_def num_div_def
           split: if_splits list.splits sum.splits)

lemma canvas_move_emissions:
  "MobileCanvas_handleTouchMove c e cv = (cv', es) \<Longrightarrow>
     (\<forall>pid x y. ConnectionStart pid x y \<notin> set es) \<and> (\<forall>pid. PersonSelect pid \<notin> set es)"
  by (auto simp: MobileCanvas_handleTouchMove_def Let_def split: if_splits list.splits)

lemma canvas_end_emissions:
  "MobileCanvas_handleTouchEnd c e cv = Inr (cv', es) \<Longrightarrow>
     (\<forall>pid x y. ConnectionStart pid x y \<notin> set es) \<and> (\<forall>pid. PersonSelect pid \<notin> set es)"
  by (auto simp: MobileCanvas_handleTouchEnd_def Let_def num_div_def
           split: if_splits list.splits sum.splits)

lemma mobile_step_references:
  assumes st: "mobile_step e s = Inr s'"
    and rel: "\<forall>r\<in>set (relationships (familyTree (app s))).
                r_from r \<in> p_id ` set (people (familyTree (app s)))
                \<and> r_to r \<in> p_id ` set (people (familyTree (app s)))"
    and draft: "\<forall>cs. connectionStart (app s) = Some cs \<longrightarrow>
                  cs_personId cs \<in> p_id ` set (people (familyTree (app s)))"
    and fresh: "\<forall>cs. connectionStart (app s) = Some cs \<longrightarrow> e \<noteq> EditorDelete (cs_personId cs)"
  shows "(\<forall>r\<in>set (relationships (familyTree (app s'))).
            r_from r \<in> p_id ` set (people (familyTree (app s')))
            \<and> r_to r \<in> p_id ` set (people (familyTree (app s'))))
         \<and> (\<forall>cs. connectionStart (app s') = Some cs \<longrightarrow>
               cs_personId cs \<in> p_id ` set (people (familyTree (app s'))))"
proof (cases e)
  case (SetMode m)
  then show ?thesis using st rel draft by (auto simp: setMode_def)
next
  case (MTouchStart t)
  show ?thesis
  proof (cases "touchable s (st_place t)")
    case False
    then show ?thesis using st MTouchStart rel draft by simp
  next
    case True
    then have "finish_touch t s
             (touch_node (\<lambda>props. MobilePersonNode_handleTouchStart props (st_now t) (st_touches t))
                (st_place t) s)
             (MobileCanvas_handleTouchStart (app s) (canvas_touch t) (canvas s)) = Inr s'"
      using st MTouchStart by simp
    then show ?thesis
    proof (rule finish_touch_references)
      show "\<And>props n tt n' tt' es.
              MobilePersonNode_handleTouchStart props (st_now t) (st_touches t) n tt = Inr (n', tt', es) \<Longrightarrow>
              (\<forall>pid x y. ConnectionStart pid x y \<in> set es \<longrightarrow> pid = p_id (m_person props))
              \<and> (\<forall>pid. PersonSelect pid \<in> set es \<longrightarrow> pid = p_id (m_person props))"
        by (rule node_start_emissions)
      show "\<And>cv es. MobileCanvas_handleTouchStart (app s) (canvas_touch t) (canvas s) = Inr (cv, es) \<Longrightarrow>
              (\<forall>pid x y. ConnectionStart pid x y \<notin> set es) \<and> (\<forall>pid. PersonSelect pid \<notin> set es)"
        by (rule canvas_start_emissions)
    qed (use rel draft in auto)
  qed
next
  case (MTouchMove t)
  show ?thesis
  proof (cases "touchable s (st_place t)")
    case False
    then show ?thesis using st MTouchMove rel draft by simp
  next
    case True
    then have "finish_touch t s
             (touch_node (\<lambda>props. MobilePersonNode_handleTouchMove props (st_touches t))
                (st_place t) s)
             (Inr (MobileCanvas_handleTouchMove (app s) (canvas_touch t) (canvas s))) = Inr s'"
      using st MTouchMove by simp
    then show ?thesis
    proof (rule finish_touch_references)
      show "\<And>cv es. Inr (MobileCanvas_handleTouchMove (app s) (canvas_touch t) (canvas s)) = Inr (cv, es) \<Longrightarrow>
              (\<forall>pid x y. ConnectionStart pid x y \<notin> set es) \<and> (\<forall>pid. PersonSelect pid \<notin> set es)"
        using canvas_move_emissions by (metis sum.inject(2))
      show "\<And>props n tt n' tt' es.
              MobilePersonNode_handleTouchMove props (st_touches t) n tt = Inr (n', tt', es) \<Longrightarrow>
              (\<forall>pid x y. ConnectionStart pid x y \<in> set es \<longrightarrow> pid = p_id (m_person props))
              \<and> (\<forall>pid. PersonSelect pid \<in> set es \<longrightarrow> pid = p_id (m_person props))"
        by (rule node_move_emissions)
    qed (use rel draft in auto)
  qed
next
  case (MTouchEnd t)
  show ?thesis
  proof (cases "touchable s (st_place t)")
    case False
    then show ?thesis using st MTouchEnd rel draft by simp
  next
    case True
    then have "finish_touch t s
             (touch_node (\<lambda>props n tt. Inr (case MobilePersonNode_handleTouchEnd n tt of
                                               (n', tt') \<Rightarrow> (n', tt', [])))
                (st_place t) s)
             (MobileCanvas_handleTouchEnd (app s) (canvas_touch t) (canvas s)) = Inr s'"
      using st MTouchEnd by simp
    then show ?thesis
    proof (rule finish_touch_references)
      show "\<And>props n tt n' tt' es.
              Inr (case MobilePersonNode_handleTouchEnd n tt of (n', tt') \<Rightarrow> (n', tt', [])) = Inr (n', tt', es) \<Longrightarrow>
              (\<forall>pid x y. ConnectionStart pid x y \<in> set es \<longrightarrow> pid = p_id (m_person props))
              \<and> (\<forall>pid. PersonSelect pid \<in> set es \<longrightarrow> pid = p_id (m_person props))"
        by (auto split: prod.splits)
      show "\<And>cv es. MobileCanvas_handleTouchEnd (app s) (canvas_touch t) (canvas s) = Inr (cv, es) \<Longrightarrow>
              (\<forall>pid x y. ConnectionStart pid x y \<notin> set es) \<and> (\<forall>pid. PersonSelect pid \<notin> set es)"
        by (rule canvas_end_emissions)
    qed (use rel draft in auto)
  qed
next
  case (Elapse now)
  then show ?thesis using st rel draft by auto
next
  case (EditorDelete pid)
  show ?thesis
  proof (cases "find (\<lambda>p. p_id p = pid) (people (familyTree (app s))) \<noteq> None \<and> m_isEditing (nodes s pid)")
    case False
    then have "s' = s" using st EditorDelete by auto
    then show ?thesis using rel draft by simp
  next
    case True
    then have a: "app s' = deletePerson pid (app s)" using st EditorDelete by auto
    have P: "people (familyTree (app s')) = filter (\<lambda>p. p_id p \<noteq> pid) (people (familyTree (app s)))"
      and R: "relationships (familyTree (app s'))
              = filter (\<lambda>r. r_from r \<noteq> pid \<and> r_to r \<noteq> pid) (relationships (familyTree (app s)))"
      and D: "connectionStart (app s') = connectionStart (app s)"
      unfolding a by (simp_all add: deletePerson_def)
    have keep: "i \<in> p_id ` set (people (familyTree (app s')))"
      if "i \<in> p_id ` set (people (familyTree (app s)))" "i \<noteq> pid" for i
      using that unfolding P by auto
    have "\<forall>cs. connectionStart (app s) = Some cs \<longrightarrow> cs_personId cs \<noteq> pid"
      using fresh EditorDelete by auto
    then show ?thesis using rel draft keep unfolding R D by auto
  qed
next
  case (EditorCancel pid)
  then show ?thesis using st rel draft by (auto split: if_splits)
next
  case (RelationshipDelete rid)
  then show ?thesis using st rel draft by (auto simp: deleteRelationship_def)
qed

text \<open>
  Claim C9. \<open>deletePerson\<close> removes the person and every relationship from or to that
  person, so that no stored tree should hold a relationship that references a deleted
  person. The code breaks this on one path: the deletion clears the relationships and the
  selection, and leaves the connection draft. With a draft that started on Ann, Ann is
  deleted from her editor; the tree then holds Bob alone (or Bob, Carol and the relationship
  from Bob to Carol), nobody is selected, and the draft still names Ann. A touch on Bob in
  connect mode completes the draft: the stored tree has a relationship from Ann to Bob, and
  no Ann.
\<close>

theorem stale_draft_dangling_relationship:
  "\<not> isl (mobile_run until_ann_deleted (mobile_start ex_tree))
   \<and> familyTree (app (projr (mobile_run until_ann_deleted (mobile_start ex_tree))))
     = \<lparr>people = [bob], relationships = []\<rparr>
   \<and> selectedPersonId (app (projr (mobile_run until_ann_deleted (mobile_start ex_tree)))) = None
   \<and> connectionStart (app (projr (mobile_run until_ann_deleted (mobile_start ex_tree))))
     = Some \<lparr>cs_personId = ''A'', cs_x = 60, cs_y = 30\<rparr>
   \<and> \<not> isl (mobile_run stale_draft (mobile_start ex_tree))
   \<and> familyTree (app (projr (mobile_run stale_draft (mobile_start ex_tree))))
     = \<lparr>people = [bob],
        relationships = [\<lparr>r_id = ''5000'', r_type = Parent, r_from = ''A'', r_to = ''B''\<rparr>]\<rparr>
   \<and> \<not> isl (mobile_run until_ann_deleted (mobile_start ex_family))
   \<and> familyTree (app (projr (mobile_run until_ann_deleted (mobile_start ex_family))))
     = \<lparr>people = [bob, carol],
        relationships = [\<lparr>r_id = ''r2'', r_type = Parent, r_from = ''B'', r_to = ''C''\<rparr>]\<rparr>
   \<and> \<not> isl (mobile_run stale_draft (mobile_start ex_family))
   \<and> familyTree (app (projr (mobile_run stale_draft (mobile_start ex_family))))
     = \<lparr>people = [bob, carol],
        relationships = [\<lparr>r_id = ''r2'', r_type = Parent, r_from = ''B'', r_to = ''C''\<rparr>,
                         \<lparr>r_id = ''5000'', r_type = Parent, r_from = ''A'', r_to = ''B''\<rparr>]\<rparr>"
  by (simp add: stale_draft_def until_ann_deleted_def mobile_defs example_defs)

text \<open>
  Claim C3 says that a change of mode resets the gestures in flight. It resets none: the
  connection draft started on Ann is still there in navigate mode, the long press armed in
  navigate mode still opens Ann's editor in connect mode, and the canvas is still panning
  in add mode.
\<close>

theorem mode_switch_counterexample:
  "\<not> isl (mobile_run draft_then_switch (mobile_start ex_tree))
   \<and> mode (app (projr (mobile_run draft_then_switch (mobile_start ex_tree)))) = MNavigate
   \<and> connectionStart (app (projr (mobile_run draft_then_switch (mobile_start ex_tree))))
     = Some \<lparr>cs_personId = ''A'', cs_x = 60, cs_y = 30\<rparr>
   \<and> \<not> isl (mobile_run hold_then_switch (mobile_start ex_tree))
   \<and> mode (app (projr (mobile_run hold_then_switch (mobile_start ex_tree)))) = MConnect
   \<and> m_isEditing (nodes (projr (mobile_run hold_then_switch (mobile_start ex_tree))) ''A'')
   \<and> \<not> isl (mobile_run pan_then_switch (mobile_start ex_tree))
   \<and> mode (app (projr (mobile_run pan_then_switch (mobile_start ex_tree)))) = MAdd
   \<and> mc_isPanning (canvas (projr (mobile_run pan_then_switch (mobile_start ex_tree))))"
  by (simp add: draft_then_switch_def hold_then_switch_def pan_then_switch_def mobile_defs example_defs)

text \<open>
  Claim C3, amended. A change of mode changes the mode and nothing else: no person's stored
  position (the tree is the same), and neither the connection draft, nor the local state of
  any node (dragging flag, drag offset, long-press timeout), nor the pending timeouts, nor
  the canvas state. In particular a long-press timeout that was pending before the change
  still runs after it, and opens the editor of its node.
\<close>

theorem mode_switch_changes_mode_only:
  "mobile_step (SetMode m) s = Inr (s\<lparr>app := (app s)\<lparr>mode := m\<rparr>\<rparr>)
   \<and> familyTree ((app s)\<lparr>mode := m\<rparr>) = familyTree (app s)
   \<and> connectionStart ((app s)\<lparr>mode := m\<rparr>) = connectionStart (app s)
   \<and> nodes (s\<lparr>app := (app s)\<lparr>mode := m\<rparr>\<rparr>) = nodes s
   \<and> timer_table (s\<lparr>app := (app s)\<lparr>mode := m\<rparr>\<rparr>) = timer_table s
   \<and> canvas (s\<lparr>app := (app s)\<lparr>mode := m\<rparr>\<rparr>) = canvas s
   \<and> (t \<in> set (pending (timer_table s)) \<and> t_due t \<le> later \<longrightarrow>
        (\<exists>s'. mobile_run [SetMode m, Elapse later] s = Inr s' \<and> m_isEditing (nodes s' (t_closure t))
           \<and> app s' = (app s)\<lparr>mode := m\<rparr> \<and> canvas s' = canvas s))"
proof -
  have step: "mobile_step (SetMode m) s = Inr (s\<lparr>app := (app s)\<lparr>mode := m\<rparr>\<rparr>)"
    by (simp add: setMode_def)
  have fires: "\<exists>s'. mobile_run [SetMode m, Elapse later] s = Inr s' \<and> m_isEditing (nodes s' (t_closure t))
           \<and> app s' = (app s)\<lparr>mode := m\<rparr> \<and> canvas s' = canvas s"
    if h: "t \<in> set (pending (timer_table s))" "t_due t \<le> later"
  proof -
    have due: "t \<in> set (filter (\<lambda>t. t_due t \<le> later) (pending (timer_table s)))"
      using h by simp
    have "m_isEditing (fold (\<lambda>t ns. ns(t_closure t := MobilePersonNode_longPress (ns (t_closure t))))
             (filter (\<lambda>t. t_due t \<le> later) (pending (timer_table s))) (nodes s) (t_closure t))"
      by (rule longPress_fires[OF due refl])
    then show ?thesis by (simp add: setMode_def)
  qed
  from step fires show ?thesis by simp
qed

text \<open>
  The long press on Ann's node that was armed at 1000 in navigate mode opens her editor at
  1600 in connect mode; the tree is as before.
\<close>

theorem mode_switch_changes_mode_only_witness:
  "\<not> isl (mobile_run press_ann (mobile_start ex_tree))
   \<and> \<lparr>t_id = 1, t_due = 1600, t_closure = ''A''\<rparr>
       \<in> set (pending (timer_table (projr (mobile_run press_ann (mobile_start ex_tree)))))
   \<and> t_due \<lparr>t_id = 1, t_due = 1600, t_closure = ''A''\<rparr> \<le> 1600
   \<and> \<not> isl (mobile_run [SetMode MConnect, Elapse 1600] (projr (mobile_run press_ann (mobile_start ex_tree))))
   \<and> m_isEditing (nodes (projr (mobile_run [SetMode MConnect, Elapse 1600]
                                  (projr (mobile_run press_ann (mobile_start ex_tree))))) ''A'')
   \<and> mode (app (projr (mobile_run [SetMode MConnect, Elapse 1600]
                         (projr (mobile_run press_ann (mobile_start ex_tree)))))) = MConnect
   \<and> familyTree (app (projr (mobile_run [SetMode MConnect, Elapse 1600]
                               (projr (mobile_run press_ann (mobile_start ex_tree)))))) = ex_tree"
  using mode_switch_changes_mode_only[of MConnect "projr (mobile_run press_ann (mobile_start ex_tree))"
          "\<lparr>t_id = 1, t_due = 1600, t_closure = ''A''\<rparr>" 1600]
  by (simp add: press_ann_def mobile_defs example_defs)

end
